theory Spec2Isabelle
  imports Main "HOL-Library.Word"
begin

section \<open>Storage, element types and outcomes\<close>

text \<open>
  The header \<^verbatim>\<open>vector.h\<close> defines two class templates: \<^verbatim>\<open>RawMemory<T>\<close>, an owner of
  uninitialised storage, and \<^verbatim>\<open>Vector<T>\<close>, which keeps the number of constructed
  elements. The embedding keeps the free store explicit. A block of storage is a list of
  slots; a slot is either raw memory or holds a constructed object of the element type.
  A pointer \<^verbatim>\<open>T*\<close> is null or names a slot of a block. \<^verbatim>\<open>size_t\<close> is a 64-bit word,
  so every \<^verbatim>\<open>size_t\<close> operation of the source wraps as it does there.
\<close>

type_synonym size_t = "64 word"

datatype ptr = Nullptr | Addr nat nat

datatype 'a slot = Raw | Obj 'a

text \<open>
  How a call can end other than by returning: \<^verbatim>\<open>std::bad_alloc\<close> from
  \<^verbatim>\<open>operator new\<close>, an exception thrown by an operation of the element type,
  \<^verbatim>\<open>std::terminate\<close> (an exception leaving a \<^verbatim>\<open>noexcept\<close> move constructor), and a
  contract violation: a failed \<^verbatim>\<open>assert\<close> or undefined behaviour, such as reading or
  assigning to a slot that holds no object.
\<close>

datatype fault = BadAlloc | Thrown | Terminated | Undefined

text \<open>
  The element type \<^verbatim>\<open>T\<close> enters the source through \<^verbatim>\<open>sizeof(T)\<close>, the two type
  traits of the \<^verbatim>\<open>if constexpr\<close> conditions, and its special member functions. A copy
  or a move gives the destination the value of the source; a move leaves the source with
  the value \<open>moved_from\<close> names. Each operation may throw, depending on the value it
  reads. An object may own a resource, such as the buffer of a non-empty container; which
  objects do depends on their value. The destructor of an object that owns a resource
  releases it, and nothing in the storage can be used as an object afterwards: a later
  assignment to it would release the resource a second time. The destructor of an object
  that owns nothing (every object of a trivially destructible type, an empty container)
  leaves the stored value in place.
\<close>

record 'a elem_type =
  sizeof_T :: size_t
  nothrow_move_constructible :: bool
  copy_constructible :: bool
  owns_resource :: "'a \<Rightarrow> bool"
  copy_throws :: "'a \<Rightarrow> bool"
  move_throws :: "'a \<Rightarrow> bool"
  moved_from :: "'a \<Rightarrow> 'a"
  copy_assign_throws :: "'a \<Rightarrow> bool"
  move_assign_throws :: "'a \<Rightarrow> bool"

text \<open>
  A constructor call of \<^verbatim>\<open>T\<close> by the values it reads: the copy constructor on an
  object of this value, the move constructor on an object of this value, or another
  constructor, which throws or yields a value.
\<close>

datatype 'a ctor_args = CopyOf 'a | MoveOf 'a | Args "'a option"

text \<open>
  The parameters \<^verbatim>\<open>const T& value\<close>, \<^verbatim>\<open>T&& value\<close> and \<^verbatim>\<open>Args&&... args\<close> are
  references. The object of type \<^verbatim>\<open>T\<close> a caller names lies outside the free store (a
  local variable or a temporary, which no call on a vector changes) and is given by its
  value, or it lies in a slot of the free store, such as an element of the vector itself,
  and is given by its address. The arguments forwarded to a constructor are then values
  that name no object of the free store, an lvalue that names the object in a slot, or an
  rvalue that names the object in a slot; the object in a slot is read when the
  constructor runs, not when the call is made.
\<close>

datatype 'a object = Outside 'a | Stored ptr

datatype 'a argument = Values "'a ctor_args" | Lvalue ptr | Rvalue ptr

definition lvalue :: "'a object \<Rightarrow> 'a argument" where
  "lvalue x = (case x of Outside v \<Rightarrow> Values (CopyOf v) | Stored q \<Rightarrow> Lvalue q)"

definition rvalue :: "'a object \<Rightarrow> 'a argument" where
  "rvalue x = (case x of Outside v \<Rightarrow> Values (MoveOf v) | Stored q \<Rightarrow> Rvalue q)"

text \<open>The calls on element objects and on the free store, in the order they happen.\<close>

datatype event =
    Allocated nat nat
  | Deallocated nat
  | Construct ptr
  | CopyConstruct ptr ptr
  | MoveConstruct ptr ptr
  | CopyAssign ptr ptr
  | MoveAssign ptr ptr
  | TempConstruct
  | MoveAssignTemp ptr
  | TempDestroy
  | Destroy ptr

record RawMemory =
  raw_buffer :: ptr
  raw_capacity :: size_t

record Vector =
  vec_data :: RawMemory
  vec_size :: size_t

text \<open>
  What a member function hands back: nothing, the address of an element (\<^verbatim>\<open>T&\<close> or an
  iterator), or the \<^verbatim>\<open>Vector\<close> itself (\<^verbatim>\<open>*this\<close>).
\<close>

datatype retval = Void | Ref ptr | This nat

text \<open>
  The program state: the blocks of the free store by address, the address the next
  allocation gets, the requests \<^verbatim>\<open>operator new\<close> turns down (by the address it would
  hand out and the number of bytes asked for), the \<^verbatim>\<open>Vector\<close> objects by their own
  address (so that \<^verbatim>\<open>this != &other\<close> can be decided), and the calls made so far.
\<close>

record 'a world =
  heap :: "nat \<Rightarrow> 'a slot list option"
  next_block :: nat
  new_fails :: "nat \<Rightarrow> nat \<Rightarrow> bool"
  vecs :: "nat \<Rightarrow> Vector"
  trace :: "event list"

type_synonym ('a, 'r) comp = "'a world \<Rightarrow> (fault + 'r) \<times> 'a world"

definition ret :: "'r \<Rightarrow> ('a, 'r) comp" where
  "ret x = (\<lambda>w. (Inr x, w))"

definition raise :: "fault \<Rightarrow> ('a, 'r) comp" where
  "raise e = (\<lambda>w. (Inl e, w))"

definition lift :: "fault + 'r \<Rightarrow> ('a, 'r) comp" where
  "lift r = (\<lambda>w. (r, w))"

definition bind :: "('a, 'r) comp \<Rightarrow> ('r \<Rightarrow> ('a, 's) comp) \<Rightarrow> ('a, 's) comp" where
  "bind m f = (\<lambda>w. case m w of (Inl e, w') \<Rightarrow> (Inl e, w') | (Inr x, w') \<Rightarrow> f x w')"

text \<open>
  Stack unwinding: when \<open>m\<close> leaves by an exception, \<open>cleanup\<close> runs (a \<^verbatim>\<open>catch\<close>
  block that rethrows, or the destructor of a local object) and the exception travels on.
\<close>

definition is_exception :: "fault \<Rightarrow> bool" where
  "is_exception e = (e = Thrown \<or> e = BadAlloc)"

definition on_exception :: "('a, 'r) comp \<Rightarrow> ('a, unit) comp \<Rightarrow> ('a, 'r) comp" where
  "on_exception m cleanup = (\<lambda>w. case m w of
      (Inr x, w') \<Rightarrow> (Inr x, w')
    | (Inl e, w') \<Rightarrow>
        if is_exception e
        then (case cleanup w' of (Inr _, w'') \<Rightarrow> (Inl e, w'') | (Inl e', w'') \<Rightarrow> (Inl e', w''))
        else (Inl e, w'))"

definition log :: "event \<Rightarrow> ('a, unit) comp" where
  "log ev = (\<lambda>w. (Inr (), w\<lparr>trace := trace w @ [ev]\<rparr>))"

subsection \<open>Slots\<close>

fun ptr_add :: "ptr \<Rightarrow> nat \<Rightarrow> ptr" where
  "ptr_add Nullptr k = Nullptr"
| "ptr_add (Addr b i) k = Addr b (i + k)"

definition slot_of :: "'a world \<Rightarrow> ptr \<Rightarrow> 'a slot option" where
  "slot_of w p = (case p of
      Nullptr \<Rightarrow> None
    | Addr b i \<Rightarrow> (case heap w b of
          None \<Rightarrow> None
        | Some blk \<Rightarrow> if i < length blk then Some (blk ! i) else None))"

definition load :: "ptr \<Rightarrow> ('a, 'a) comp" where
  "load p = (\<lambda>w. case slot_of w p of Some (Obj v) \<Rightarrow> (Inr v, w) | _ \<Rightarrow> (Inl Undefined, w))"

definition store :: "ptr \<Rightarrow> 'a slot \<Rightarrow> ('a, unit) comp" where
  "store p s = (\<lambda>w. case p of
      Nullptr \<Rightarrow> (Inl Undefined, w)
    | Addr b i \<Rightarrow> (case heap w b of
          None \<Rightarrow> (Inl Undefined, w)
        | Some blk \<Rightarrow>
            if i < length blk then (Inr (), w\<lparr>heap := (heap w)(b \<mapsto> blk[i := s])\<rparr>)
            else (Inl Undefined, w)))"

subsection \<open>Operations of the element type\<close>

definition make :: "'a elem_type \<Rightarrow> 'a ctor_args \<Rightarrow> fault + 'a" where
  "make T args = (case args of
      CopyOf v \<Rightarrow> if copy_throws T v then Inl Thrown else Inr v
    | MoveOf v \<Rightarrow>
        if move_throws T v
        then Inl (if nothrow_move_constructible T then Terminated else Thrown)
        else Inr v
    | Args None \<Rightarrow> Inl Thrown
    | Args (Some v) \<Rightarrow> Inr v)"

text \<open>
  \<^verbatim>\<open>T(std::forward<Args>(args)...)\<close>: the constructor reads the object an argument
  names in the state it runs in, and the move constructor leaves that object moved-from.
\<close>

definition construct :: "'a elem_type \<Rightarrow> 'a argument \<Rightarrow> ('a, 'a) comp" where
  "construct T a = (case a of
      Values args \<Rightarrow> lift (make T args)
    | Lvalue q \<Rightarrow> bind (load q) (\<lambda>x. lift (make T (CopyOf x)))
    | Rvalue q \<Rightarrow>
        bind (load q) (\<lambda>x.
        bind (lift (make T (MoveOf x))) (\<lambda>v.
        bind (store q (Obj (moved_from T x))) (\<lambda>_. ret v))))"

text \<open>\<^verbatim>\<open>new (p) T(std::forward<Args>(args)...)\<close>\<close>

definition construct_at :: "'a elem_type \<Rightarrow> ptr \<Rightarrow> 'a argument \<Rightarrow> ('a, unit) comp" where
  "construct_at T p a =
     bind (log (Construct p)) (\<lambda>_.
     bind (construct T a) (\<lambda>v. store p (Obj v)))"

text \<open>\<^verbatim>\<open>new (dst) T(*src)\<close>\<close>

definition copy_construct :: "'a elem_type \<Rightarrow> ptr \<Rightarrow> ptr \<Rightarrow> ('a, unit) comp" where
  "copy_construct T src dst =
     bind (log (CopyConstruct src dst)) (\<lambda>_.
     bind (load src) (\<lambda>v.
     if copy_throws T v then raise Thrown else store dst (Obj v)))"

text \<open>\<^verbatim>\<open>new (dst) T(std::move(*src))\<close>\<close>

definition move_construct :: "'a elem_type \<Rightarrow> ptr \<Rightarrow> ptr \<Rightarrow> ('a, unit) comp" where
  "move_construct T src dst =
     bind (log (MoveConstruct src dst)) (\<lambda>_.
     bind (load src) (\<lambda>v.
     if move_throws T v
     then raise (if nothrow_move_constructible T then Terminated else Thrown)
     else bind (store dst (Obj v)) (\<lambda>_. store src (Obj (moved_from T v)))))"

text \<open>\<^verbatim>\<open>*dst = *src\<close>: both sides must be objects.\<close>

definition copy_assign :: "'a elem_type \<Rightarrow> ptr \<Rightarrow> ptr \<Rightarrow> ('a, unit) comp" where
  "copy_assign T src dst =
     bind (log (CopyAssign src dst)) (\<lambda>_.
     bind (load src) (\<lambda>v.
     bind (load dst) (\<lambda>_.
     if copy_assign_throws T v then raise Thrown else store dst (Obj v))))"

text \<open>\<^verbatim>\<open>*dst = std::move(*src)\<close>\<close>

definition move_assign :: "'a elem_type \<Rightarrow> ptr \<Rightarrow> ptr \<Rightarrow> ('a, unit) comp" where
  "move_assign T src dst =
     bind (log (MoveAssign src dst)) (\<lambda>_.
     bind (load src) (\<lambda>v.
     bind (load dst) (\<lambda>_.
     if move_assign_throws T v then raise Thrown
     else bind (store dst (Obj v)) (\<lambda>_. store src (Obj (moved_from T v))))))"

text \<open>\<^verbatim>\<open>std::destroy_at(p)\<close>: the destructor call needs an object at \<open>p\<close>.\<close>

definition destroy_at :: "'a elem_type \<Rightarrow> ptr \<Rightarrow> ('a, unit) comp" where
  "destroy_at T p =
     bind (log (Destroy p)) (\<lambda>_.
     bind (load p) (\<lambda>v.
     if owns_resource T v then store p Raw else ret ()))"

subsection \<open>Algorithms of the standard library\<close>

text \<open>
  The algorithms of \<^verbatim>\<open><memory>\<close> and \<^verbatim>\<open><algorithm>\<close> the source calls, as the C++
  standard specifies them. \<open>k\<close> counts the elements already handled, \<open>r\<close> those left.
\<close>

primrec destroy_loop :: "'a elem_type \<Rightarrow> ptr \<Rightarrow> nat \<Rightarrow> nat \<Rightarrow> ('a, unit) comp" where
  "destroy_loop T p k 0 = ret ()"
| "destroy_loop T p k (Suc r) =
     bind (destroy_at T (ptr_add p k)) (\<lambda>_. destroy_loop T p (Suc k) r)"

definition destroy_n :: "'a elem_type \<Rightarrow> ptr \<Rightarrow> nat \<Rightarrow> ('a, unit) comp" where
  "destroy_n T p n = destroy_loop T p 0 n"

text \<open>
  \<^verbatim>\<open>std::uninitialized_copy_n\<close> and \<^verbatim>\<open>std::uninitialized_move_n\<close>: when a constructor
  throws, the objects already constructed in the destination are destroyed and the
  exception is rethrown.
\<close>

primrec uninit_copy_loop ::
  "'a elem_type \<Rightarrow> ptr \<Rightarrow> ptr \<Rightarrow> nat \<Rightarrow> nat \<Rightarrow> ('a, unit) comp" where
  "uninit_copy_loop T src dst k 0 = ret ()"
| "uninit_copy_loop T src dst k (Suc r) =
     bind (on_exception (copy_construct T (ptr_add src k) (ptr_add dst k)) (destroy_n T dst k))
       (\<lambda>_. uninit_copy_loop T src dst (Suc k) r)"

definition uninitialized_copy_n :: "'a elem_type \<Rightarrow> ptr \<Rightarrow> nat \<Rightarrow> ptr \<Rightarrow> ('a, unit) comp" where
  "uninitialized_copy_n T src n dst = uninit_copy_loop T src dst 0 n"

primrec uninit_move_loop ::
  "'a elem_type \<Rightarrow> ptr \<Rightarrow> ptr \<Rightarrow> nat \<Rightarrow> nat \<Rightarrow> ('a, unit) comp" where
  "uninit_move_loop T src dst k 0 = ret ()"
| "uninit_move_loop T src dst k (Suc r) =
     bind (on_exception (move_construct T (ptr_add src k) (ptr_add dst k)) (destroy_n T dst k))
       (\<lambda>_. uninit_move_loop T src dst (Suc k) r)"

definition uninitialized_move_n :: "'a elem_type \<Rightarrow> ptr \<Rightarrow> nat \<Rightarrow> ptr \<Rightarrow> ('a, unit) comp" where
  "uninitialized_move_n T src n dst = uninit_move_loop T src dst 0 n"

text \<open>\<^verbatim>\<open>std::copy_n\<close>, \<^verbatim>\<open>std::copy\<close> and \<^verbatim>\<open>std::move\<close> assign front to back.\<close>

primrec copy_loop :: "'a elem_type \<Rightarrow> ptr \<Rightarrow> ptr \<Rightarrow> nat \<Rightarrow> nat \<Rightarrow> ('a, unit) comp" where
  "copy_loop T src dst k 0 = ret ()"
| "copy_loop T src dst k (Suc r) =
     bind (copy_assign T (ptr_add src k) (ptr_add dst k)) (\<lambda>_. copy_loop T src dst (Suc k) r)"

definition copy_n :: "'a elem_type \<Rightarrow> ptr \<Rightarrow> nat \<Rightarrow> ptr \<Rightarrow> ('a, unit) comp" where
  "copy_n T src n dst = copy_loop T src dst 0 n"

primrec move_loop :: "'a elem_type \<Rightarrow> ptr \<Rightarrow> ptr \<Rightarrow> nat \<Rightarrow> nat \<Rightarrow> ('a, unit) comp" where
  "move_loop T src dst k 0 = ret ()"
| "move_loop T src dst k (Suc r) =
     bind (move_assign T (ptr_add src k) (ptr_add dst k)) (\<lambda>_. move_loop T src dst (Suc k) r)"

text \<open>
  The length of an iterator range \<^verbatim>\<open>[first, last)\<close>: both pointers must lie in one
  block, \<open>first\<close> not after \<open>last\<close>.
\<close>

definition range_length :: "ptr \<Rightarrow> ptr \<Rightarrow> fault + nat" where
  "range_length first lastp = (case (first, lastp) of
      (Nullptr, Nullptr) \<Rightarrow> Inr 0
    | (Addr b i, Addr c j) \<Rightarrow> if b = c \<and> i \<le> j then Inr (j - i) else Inl Undefined
    | _ \<Rightarrow> Inl Undefined)"

definition std_copy :: "'a elem_type \<Rightarrow> ptr \<Rightarrow> ptr \<Rightarrow> ptr \<Rightarrow> ('a, unit) comp" where
  "std_copy T first lastp d_first =
     bind (lift (range_length first lastp)) (\<lambda>n. copy_loop T first d_first 0 n)"

definition std_move :: "'a elem_type \<Rightarrow> ptr \<Rightarrow> ptr \<Rightarrow> ptr \<Rightarrow> ('a, unit) comp" where
  "std_move T first lastp d_first =
     bind (lift (range_length first lastp)) (\<lambda>n. move_loop T first d_first 0 n)"

text \<open>
  \<^verbatim>\<open>std::move_backward(first, last, d_last)\<close> assigns back to front: with \<open>n\<close> elements
  left, \<^verbatim>\<open>first[n - 1]\<close> goes to \<^verbatim>\<open>d_first[n - 1]\<close>, where \<open>d_first\<close> is \<open>n\<close> slots
  before \<open>d_last\<close>.
\<close>

primrec move_backward_loop :: "'a elem_type \<Rightarrow> ptr \<Rightarrow> ptr \<Rightarrow> nat \<Rightarrow> ('a, unit) comp" where
  "move_backward_loop T first d_first 0 = ret ()"
| "move_backward_loop T first d_first (Suc n) =
     bind (move_assign T (ptr_add first n) (ptr_add d_first n))
       (\<lambda>_. move_backward_loop T first d_first n)"

definition ptr_sub :: "ptr \<Rightarrow> nat \<Rightarrow> fault + ptr" where
  "ptr_sub p k = (case p of
      Nullptr \<Rightarrow> if k = 0 then Inr Nullptr else Inl Undefined
    | Addr b i \<Rightarrow> if k \<le> i then Inr (Addr b (i - k)) else Inl Undefined)"

definition move_backward :: "'a elem_type \<Rightarrow> ptr \<Rightarrow> ptr \<Rightarrow> ptr \<Rightarrow> ('a, unit) comp" where
  "move_backward T first lastp d_last =
     bind (lift (range_length first lastp)) (\<lambda>n.
     bind (lift (ptr_sub d_last n)) (\<lambda>d_first.
     move_backward_loop T first d_first n))"

section \<open>RawMemory\<close>

text \<open>
  \<^verbatim>\<open>operator new\<close> hands out a fresh block or throws \<^verbatim>\<open>std::bad_alloc\<close>. The block has
  room for as many elements as the requested bytes hold. \<^verbatim>\<open>operator delete\<close> accepts a
  null pointer, and otherwise needs the address \<^verbatim>\<open>operator new\<close> returned.
\<close>

definition operator_new :: "'a elem_type \<Rightarrow> size_t \<Rightarrow> ('a, ptr) comp" where
  "operator_new T bytes = (\<lambda>w.
     if new_fails w (next_block w) (unat bytes) then (Inl BadAlloc, w)
     else (Inr (Addr (next_block w) 0),
           w\<lparr>heap := (heap w)(next_block w \<mapsto> replicate (unat bytes div unat (sizeof_T T)) Raw),
             next_block := Suc (next_block w),
             trace := trace w @ [Allocated (next_block w) (unat bytes)]\<rparr>))"

definition operator_delete :: "ptr \<Rightarrow> ('a, unit) comp" where
  "operator_delete p = (\<lambda>w. case p of
      Nullptr \<Rightarrow> (Inr (), w)
    | Addr b i \<Rightarrow>
        if i = 0 \<and> heap w b \<noteq> None
        then (Inr (), w\<lparr>heap := (heap w)(b := None), trace := trace w @ [Deallocated b]\<rparr>)
        else (Inl Undefined, w))"

definition Allocate :: "'a elem_type \<Rightarrow> size_t \<Rightarrow> ('a, ptr) comp" where
  "Allocate T n = (if n \<noteq> 0 then operator_new T (n * sizeof_T T) else ret Nullptr)"

definition Deallocate :: "ptr \<Rightarrow> ('a, unit) comp" where
  "Deallocate buf = operator_delete buf"

text \<open>\<^verbatim>\<open>RawMemory() = default\<close> and \<^verbatim>\<open>explicit RawMemory(size_t capacity)\<close>\<close>

definition RawMemory_default :: RawMemory where
  "RawMemory_default = \<lparr>raw_buffer = Nullptr, raw_capacity = 0\<rparr>"

definition RawMemory_ctor :: "'a elem_type \<Rightarrow> size_t \<Rightarrow> ('a, RawMemory) comp" where
  "RawMemory_ctor T capacity =
     bind (Allocate T capacity) (\<lambda>p. ret \<lparr>raw_buffer = p, raw_capacity = capacity\<rparr>)"

text \<open>
  \<^verbatim>\<open>RawMemory(RawMemory&& other)\<close>: the pair is the new object and \<open>other\<close> afterwards.
  Both members are taken with \<^verbatim>\<open>std::exchange\<close>.
\<close>

definition RawMemory_move_ctor :: "RawMemory \<Rightarrow> RawMemory \<times> RawMemory" where
  "RawMemory_move_ctor other =
     (let b = raw_buffer other; other1 = other\<lparr>raw_buffer := Nullptr\<rparr>;
          c = raw_capacity other1; other2 = other1\<lparr>raw_capacity := 0\<rparr>
      in (\<lparr>raw_buffer = b, raw_capacity = c\<rparr>, other2))"

text \<open>
  \<^verbatim>\<open>operator=(RawMemory&& other)\<close>: the pair is \<^verbatim>\<open>*this\<close> and \<open>other\<close> afterwards. The
  buffer is taken with \<^verbatim>\<open>std::exchange\<close>, the capacity is read with a plain
  \<^verbatim>\<open>capacity_ = other.capacity_\<close>. The body has no \<^verbatim>\<open>return\<close> statement and does not
  release the buffer \<^verbatim>\<open>*this\<close> held.
\<close>

definition RawMemory_move_assign :: "RawMemory \<Rightarrow> RawMemory \<Rightarrow> RawMemory \<times> RawMemory" where
  "RawMemory_move_assign this other =
     (let b = raw_buffer other; other1 = other\<lparr>raw_buffer := Nullptr\<rparr>;
          this1 = this\<lparr>raw_buffer := b\<rparr>;
          this2 = this1\<lparr>raw_capacity := raw_capacity other1\<rparr>
      in (this2, other1))"

definition RawMemory_dtor :: "RawMemory \<Rightarrow> ('a, unit) comp" where
  "RawMemory_dtor m = Deallocate (raw_buffer m)"

text \<open>
  \<^verbatim>\<open>operator+\<close> asserts \<^verbatim>\<open>offset <= capacity_\<close>; \<^verbatim>\<open>operator[]\<close> asserts
  \<^verbatim>\<open>index <= capacity_\<close> and binds a reference to \<^verbatim>\<open>buffer_[index]\<close>.
\<close>

definition RawMemory_plus :: "RawMemory \<Rightarrow> size_t \<Rightarrow> fault + ptr" where
  "RawMemory_plus m offset =
     (if offset \<le> raw_capacity m
      then (case raw_buffer m of
              Nullptr \<Rightarrow> if offset = 0 then Inr Nullptr else Inl Undefined
            | Addr b i \<Rightarrow> Inr (Addr b (i + unat offset)))
      else Inl Undefined)"

definition RawMemory_index :: "RawMemory \<Rightarrow> size_t \<Rightarrow> fault + ptr" where
  "RawMemory_index m index =
     (if index \<le> raw_capacity m
      then (case raw_buffer m of
              Nullptr \<Rightarrow> Inl Undefined
            | Addr b i \<Rightarrow> Inr (Addr b (i + unat index)))
      else Inl Undefined)"

definition RawMemory_Swap :: "RawMemory \<Rightarrow> RawMemory \<Rightarrow> RawMemory \<times> RawMemory" where
  "RawMemory_Swap this other =
     (this\<lparr>raw_buffer := raw_buffer other, raw_capacity := raw_capacity other\<rparr>,
      other\<lparr>raw_buffer := raw_buffer this, raw_capacity := raw_capacity this\<rparr>)"

definition GetAddress :: "RawMemory \<Rightarrow> ptr" where
  "GetAddress m = raw_buffer m"

definition RawMemory_Capacity :: "RawMemory \<Rightarrow> size_t" where
  "RawMemory_Capacity m = raw_capacity m"

section \<open>Vector\<close>

definition Vector_default :: Vector where
  "Vector_default = \<lparr>vec_data = RawMemory_default, vec_size = 0\<rparr>"

definition Size :: "Vector \<Rightarrow> size_t" where
  "Size v = vec_size v"

definition Capacity :: "Vector \<Rightarrow> size_t" where
  "Capacity v = RawMemory_Capacity (vec_data v)"

definition Vector_begin :: "Vector \<Rightarrow> ptr" where
  "Vector_begin v = GetAddress (vec_data v)"

definition Vector_end :: "Vector \<Rightarrow> fault + ptr" where
  "Vector_end v =
     (if vec_size v = 0 then Inr (Vector_begin v)
      else RawMemory_plus (vec_data v) (vec_size v))"

definition Vector_cbegin :: "Vector \<Rightarrow> ptr" where
  "Vector_cbegin v = Vector_begin v"

definition Vector_cend :: "Vector \<Rightarrow> fault + ptr" where
  "Vector_cend v = Vector_end v"

text \<open>Reading and writing the members of the \<^verbatim>\<open>Vector\<close> object at address \<open>this\<close>\<close>

definition get_vec :: "nat \<Rightarrow> ('a, Vector) comp" where
  "get_vec this = (\<lambda>w. (Inr (vecs w this), w))"

definition set_data :: "nat \<Rightarrow> RawMemory \<Rightarrow> ('a, unit) comp" where
  "set_data this d = (\<lambda>w. (Inr (), w\<lparr>vecs := (vecs w)(this := (vecs w this)\<lparr>vec_data := d\<rparr>)\<rparr>))"

definition set_size :: "nat \<Rightarrow> size_t \<Rightarrow> ('a, unit) comp" where
  "set_size this n = (\<lambda>w. (Inr (), w\<lparr>vecs := (vecs w)(this := (vecs w this)\<lparr>vec_size := n\<rparr>)\<rparr>))"

text \<open>
  The trait test of every \<^verbatim>\<open>if constexpr\<close> in the source:
  \<^verbatim>\<open>std::is_nothrow_move_constructible_v<T> || !std::is_copy_constructible_v<T>\<close>
\<close>

definition moves :: "'a elem_type \<Rightarrow> bool" where
  "moves T = (nothrow_move_constructible T \<or> \<not> copy_constructible T)"

text \<open>
  \<^verbatim>\<open>Vector(const Vector& other)\<close> for a local object and \<^verbatim>\<open>~Vector()\<close>. When the
  constructor body throws, the member \<^verbatim>\<open>data_\<close> is destroyed.
\<close>

definition Vector_copy_ctor :: "'a elem_type \<Rightarrow> Vector \<Rightarrow> ('a, Vector) comp" where
  "Vector_copy_ctor T other =
     bind (RawMemory_ctor T (vec_size other)) (\<lambda>d.
     bind (on_exception
             (uninitialized_copy_n T (GetAddress (vec_data other)) (unat (vec_size other))
                (GetAddress d))
             (RawMemory_dtor d)) (\<lambda>_.
     ret \<lparr>vec_data = d, vec_size = vec_size other\<rparr>))"

definition Vector_dtor :: "'a elem_type \<Rightarrow> Vector \<Rightarrow> ('a, unit) comp" where
  "Vector_dtor T v =
     bind (destroy_n T (GetAddress (vec_data v)) (unat (vec_size v))) (\<lambda>_.
     RawMemory_dtor (vec_data v))"

text \<open>
  \<^verbatim>\<open>Vector& operator=(const Vector& other)\<close>. In the first branch \<^verbatim>\<open>Swap(tmp)\<close> gives
  \<^verbatim>\<open>*this\<close> the members of the copy, and the destructor of \<^verbatim>\<open>tmp\<close> then runs on the
  members \<^verbatim>\<open>*this\<close> had.
\<close>

definition Vector_copy_assign :: "'a elem_type \<Rightarrow> nat \<Rightarrow> nat \<Rightarrow> ('a, retval) comp" where
  "Vector_copy_assign T this other =
     (if this \<noteq> other then
        bind (get_vec this) (\<lambda>tv.
        bind (get_vec other) (\<lambda>ov.
        bind (if Size ov > Capacity tv then
                bind (Vector_copy_ctor T ov) (\<lambda>tmp.
                bind (set_data this (vec_data tmp)) (\<lambda>_.
                bind (set_size this (vec_size tmp)) (\<lambda>_.
                Vector_dtor T tv)))
              else
                bind (copy_n T (GetAddress (vec_data ov)) (unat (min (Size tv) (Size ov)))
                        (GetAddress (vec_data tv))) (\<lambda>_.
                bind (if Size tv > Size ov then
                        bind (lift (RawMemory_plus (vec_data tv) (Size ov))) (\<lambda>p.
                        destroy_n T p (unat (Size tv - Size ov)))
                      else
                        bind (lift (RawMemory_plus (vec_data ov) (Size tv))) (\<lambda>src.
                        bind (lift (RawMemory_plus (vec_data tv) (Size tv))) (\<lambda>dst.
                        uninitialized_copy_n T src (unat (Size ov - Size tv)) dst))) (\<lambda>_.
                set_size this (vec_size ov)))) (\<lambda>_.
        ret (This this))))
      else ret (This this))"

text \<open>
  The relocation of \<open>n\<close> elements that \<^verbatim>\<open>Reserve\<close>, \<^verbatim>\<open>EmplaceBack\<close> and \<^verbatim>\<open>Emplace\<close>
  each write out as an \<^verbatim>\<open>if constexpr\<close> with \<^verbatim>\<open>std::uninitialized_move_n\<close> in one
  branch and \<^verbatim>\<open>std::uninitialized_copy_n\<close> in the other.
\<close>

definition relocate_n :: "'a elem_type \<Rightarrow> ptr \<Rightarrow> nat \<Rightarrow> ptr \<Rightarrow> ('a, unit) comp" where
  "relocate_n T src n dst =
     (if moves T then uninitialized_move_n T src n dst else uninitialized_copy_n T src n dst)"

text \<open>
  The end of the three growth paths: \<^verbatim>\<open>data_.Swap(new_data)\<close>,
  \<^verbatim>\<open>std::destroy_n(new_data.GetAddress(), size_)\<close>, and the destructor of \<^verbatim>\<open>new_data\<close>,
  which by then owns the old block.
\<close>

definition commit :: "'a elem_type \<Rightarrow> nat \<Rightarrow> RawMemory \<Rightarrow> ('a, unit) comp" where
  "commit T this new_data =
     bind (get_vec this) (\<lambda>v.
     bind (set_data this (fst (RawMemory_Swap (vec_data v) new_data))) (\<lambda>_.
     bind (destroy_n T (GetAddress (snd (RawMemory_Swap (vec_data v) new_data)))
             (unat (vec_size v))) (\<lambda>_.
     RawMemory_dtor (snd (RawMemory_Swap (vec_data v) new_data)))))"

definition Reserve :: "'a elem_type \<Rightarrow> nat \<Rightarrow> size_t \<Rightarrow> ('a, retval) comp" where
  "Reserve T this new_capacity =
     bind (get_vec this) (\<lambda>v.
     if new_capacity \<le> RawMemory_Capacity (vec_data v) then ret Void
     else
       bind (RawMemory_ctor T new_capacity) (\<lambda>new_data.
       bind (on_exception
               (relocate_n T (GetAddress (vec_data v)) (unat (vec_size v)) (GetAddress new_data))
               (RawMemory_dtor new_data)) (\<lambda>_.
       bind (commit T this new_data) (\<lambda>_.
       ret Void))))"

definition grown :: "size_t \<Rightarrow> size_t" where
  "grown n = (if n = 0 then 1 else n * 2)"

definition EmplaceBack :: "'a elem_type \<Rightarrow> nat \<Rightarrow> 'a argument \<Rightarrow> ('a, retval) comp" where
  "EmplaceBack T this args =
     bind (get_vec this) (\<lambda>v.
     bind (if vec_size v < Capacity v then
             bind (lift (RawMemory_plus (vec_data v) (vec_size v))) (\<lambda>p.
             construct_at T p args)
           else
             bind (RawMemory_ctor T (grown (vec_size v))) (\<lambda>new_data.
             bind (on_exception
                     (bind (lift (RawMemory_plus new_data (vec_size v))) (\<lambda>p.
                      bind (construct_at T p args) (\<lambda>_.
                      relocate_n T (GetAddress (vec_data v)) (unat (vec_size v))
                        (GetAddress new_data))))
                     (RawMemory_dtor new_data)) (\<lambda>_.
             commit T this new_data))) (\<lambda>_.
     bind (set_size this (vec_size v + 1)) (\<lambda>_.
     bind (get_vec this) (\<lambda>v'.
     bind (lift (RawMemory_index (vec_data v') (vec_size v' - 1))) (\<lambda>p.
     ret (Ref p))))))"

text \<open>\<^verbatim>\<open>void PushBack(const T& value)\<close> and \<^verbatim>\<open>void PushBack(T&& value)\<close>\<close>

definition PushBack_copy :: "'a elem_type \<Rightarrow> nat \<Rightarrow> 'a object \<Rightarrow> ('a, retval) comp" where
  "PushBack_copy T this val = bind (EmplaceBack T this (lvalue val)) (\<lambda>_. ret Void)"

definition PushBack_move :: "'a elem_type \<Rightarrow> nat \<Rightarrow> 'a object \<Rightarrow> ('a, retval) comp" where
  "PushBack_move T this val = bind (EmplaceBack T this (rvalue val)) (\<lambda>_. ret Void)"

text \<open>
  \<^verbatim>\<open>std::distance(cbegin(), pos)\<close>, converted to \<^verbatim>\<open>size_t\<close>: the pointers must lie in
  one block.
\<close>

definition distance :: "ptr \<Rightarrow> ptr \<Rightarrow> fault + size_t" where
  "distance first lastp = (case (first, lastp) of
      (Nullptr, Nullptr) \<Rightarrow> Inr 0
    | (Addr b i, Addr c j) \<Rightarrow> if b = c then Inr (word_of_int (int j - int i)) else Inl Undefined
    | _ \<Rightarrow> Inl Undefined)"

text \<open>
  The first two statements of the branch of \<^verbatim>\<open>Emplace\<close> that inserts into spare
  capacity: \<^verbatim>\<open>new (data_ + size_) T(std::move(data_[size_ - 1u]))\<close> and
  \<^verbatim>\<open>std::move_backward(begin() + pos_index, std::prev(end()), end())\<close>.
\<close>

definition shift_right :: "'a elem_type \<Rightarrow> Vector \<Rightarrow> size_t \<Rightarrow> ('a, unit) comp" where
  "shift_right T v pos_index =
     bind (lift (RawMemory_plus (vec_data v) (vec_size v))) (\<lambda>dst.
     bind (lift (RawMemory_index (vec_data v) (vec_size v - 1))) (\<lambda>src.
     bind (move_construct T src dst) (\<lambda>_.
     bind (lift (Vector_end v)) (\<lambda>e.
     bind (lift (ptr_sub e 1)) (\<lambda>pe.
     move_backward T (ptr_add (Vector_begin v) (unat pos_index)) pe e)))))"

text \<open>
  The third statement, \<^verbatim>\<open>data_[pos_index] = T(std::forward<Args>(args)...)\<close>: the
  temporary is constructed from the arguments as they are at this point, move-assigned to
  the element, and destroyed at the end of the statement, also when the assignment throws.
\<close>

definition assign_temp :: "'a elem_type \<Rightarrow> RawMemory \<Rightarrow> size_t \<Rightarrow> 'a argument \<Rightarrow> ('a, unit) comp" where
  "assign_temp T d index args =
     bind (log TempConstruct) (\<lambda>_.
     bind (construct T args) (\<lambda>v.
     bind (on_exception
             (bind (lift (RawMemory_index d index)) (\<lambda>p.
              bind (log (MoveAssignTemp p)) (\<lambda>_.
              bind (load p) (\<lambda>_.
              if move_assign_throws T v then raise Thrown else store p (Obj v)))))
             (log TempDestroy)) (\<lambda>_.
     log TempDestroy)))"

definition Emplace :: "'a elem_type \<Rightarrow> nat \<Rightarrow> ptr \<Rightarrow> 'a argument \<Rightarrow> ('a, retval) comp" where
  "Emplace T this pos args =
     bind (get_vec this) (\<lambda>v.
     bind (lift (Vector_cend v)) (\<lambda>e.
     if pos = e then
       bind (EmplaceBack T this args) (\<lambda>_.
       bind (get_vec this) (\<lambda>v'.
       bind (lift (Vector_end v')) (\<lambda>e'.
       bind (lift (ptr_sub e' 1)) (\<lambda>p.
       ret (Ref p)))))
     else
       bind (lift (distance (Vector_cbegin v) pos)) (\<lambda>pos_index.
       bind (if vec_size v < Capacity v then
               bind (shift_right T v pos_index) (\<lambda>_.
               assign_temp T (vec_data v) pos_index args)
             else
               bind (RawMemory_ctor T (grown (vec_size v))) (\<lambda>new_data.
               bind (on_exception
                       (bind (lift (RawMemory_plus new_data pos_index)) (\<lambda>p.
                        bind (construct_at T p args) (\<lambda>_.
                        bind (relocate_n T (GetAddress (vec_data v)) (unat pos_index)
                                (GetAddress new_data)) (\<lambda>_.
                        bind (lift (RawMemory_plus (vec_data v) pos_index)) (\<lambda>src.
                        bind (lift (RawMemory_plus new_data (pos_index + 1))) (\<lambda>dst.
                        relocate_n T src (unat (vec_size v - pos_index)) dst))))))
                       (RawMemory_dtor new_data)) (\<lambda>_.
               commit T this new_data))) (\<lambda>_.
       bind (set_size this (vec_size v + 1)) (\<lambda>_.
       bind (get_vec this) (\<lambda>v'.
       ret (Ref (ptr_add (Vector_begin v') (unat pos_index)))))))))"

text \<open>\<^verbatim>\<open>Insert(const_iterator pos, const T& value)\<close> and \<^verbatim>\<open>Insert(const_iterator pos, T&& value)\<close>\<close>

definition Insert_copy :: "'a elem_type \<Rightarrow> nat \<Rightarrow> ptr \<Rightarrow> 'a object \<Rightarrow> ('a, retval) comp" where
  "Insert_copy T this pos val = Emplace T this pos (lvalue val)"

definition Insert_move :: "'a elem_type \<Rightarrow> nat \<Rightarrow> ptr \<Rightarrow> 'a object \<Rightarrow> ('a, retval) comp" where
  "Insert_move T this pos val = Emplace T this pos (rvalue val)"

definition Erase :: "'a elem_type \<Rightarrow> nat \<Rightarrow> ptr \<Rightarrow> ('a, retval) comp" where
  "Erase T this pos =
     bind (get_vec this) (\<lambda>v.
     bind (lift (distance (Vector_cbegin v) pos)) (\<lambda>pos_index.
     bind (destroy_at T (ptr_add (Vector_begin v) (unat pos_index))) (\<lambda>_.
     bind (lift (Vector_end v)) (\<lambda>e.
     bind (if moves T
           then std_move T (ptr_add (ptr_add (Vector_begin v) (unat pos_index)) 1) e
                  (ptr_add (Vector_begin v) (unat pos_index))
           else std_copy T (ptr_add (ptr_add (Vector_begin v) (unat pos_index)) 1) e
                  (ptr_add (Vector_begin v) (unat pos_index))) (\<lambda>_.
     bind (set_size this (vec_size v - 1)) (\<lambda>_.
     bind (get_vec this) (\<lambda>v'.
     ret (Ref (ptr_add (Vector_begin v') (unat pos_index))))))))))"

definition PopBack :: "'a elem_type \<Rightarrow> nat \<Rightarrow> ('a, retval) comp" where
  "PopBack T this =
     bind (get_vec this) (\<lambda>v.
     if vec_size v > 0 then
       bind (lift (RawMemory_plus (vec_data v) (vec_size v - 1))) (\<lambda>p.
       bind (destroy_at T p) (\<lambda>_.
       bind (set_size this (vec_size v - 1)) (\<lambda>_.
       ret Void)))
     else raise Undefined)"

text \<open>The element values a vector holds: the contents of the slots \<open>[0, size)\<close> of its block.\<close>

definition elements :: "'a world \<Rightarrow> nat \<Rightarrow> 'a slot list" where
  "elements w this =
     (case raw_buffer (vec_data (vecs w this)) of
        Nullptr \<Rightarrow> []
      | Addr b i \<Rightarrow> (case heap w b of
            None \<Rightarrow> []
          | Some blk \<Rightarrow> take (unat (vec_size (vecs w this))) (drop i blk)))"

section \<open>Vocabulary of the properties\<close>

text \<open>
  The slots a pointer range \<^verbatim>\<open>[p, p + n)\<close> covers, as pairs of block and index. Two
  states are the same but for a set of slots when they agree on every \<^verbatim>\<open>Vector\<close> object,
  on the allocator, on which blocks exist and how long they are, and on every slot outside
  the set; the record of calls is left free. A computation touches a set of slots when,
  however it ends, the state it leaves is the same but for these slots. It emits a list of
  calls when every run that returns has added exactly this list to the record.
\<close>

definition cells :: "ptr \<Rightarrow> nat \<Rightarrow> (nat \<times> nat) set" where
  "cells p n = (case p of Nullptr \<Rightarrow> {} | Addr b i \<Rightarrow> {b} \<times> {i..<i + n})"

definition same_but :: "(nat \<times> nat) set \<Rightarrow> 'a world \<Rightarrow> 'a world \<Rightarrow> bool" where
  "same_but S w w' \<longleftrightarrow>
     vecs w' = vecs w \<and> next_block w' = next_block w \<and> new_fails w' = new_fails w \<and>
     (\<forall>b. map_option length (heap w' b) = map_option length (heap w b)) \<and>
     (\<forall>b i. (b, i) \<notin> S \<longrightarrow> slot_of w' (Addr b i) = slot_of w (Addr b i))"

definition touches :: "('a, 'r) comp \<Rightarrow> (nat \<times> nat) set \<Rightarrow> bool" where
  "touches m S \<longleftrightarrow> (\<forall>w r w'. m w = (r, w') \<longrightarrow> same_but S w w')"

definition emits :: "('a, 'r) comp \<Rightarrow> event list \<Rightarrow> bool" where
  "emits m evs \<longleftrightarrow> (\<forall>w r w'. m w = (Inr r, w') \<longrightarrow> trace w' = trace w @ evs)"



text \<open>
  The calls a relocation of \<open>n\<close> elements is expected to make: one move construction per
  element when the trait test holds, one copy construction per element otherwise. Then
  the calls that destroy \<open>n\<close> elements, and the release of a block.
\<close>

definition relocation_events :: "'a elem_type \<Rightarrow> ptr \<Rightarrow> nat \<Rightarrow> ptr \<Rightarrow> event list" where
  "relocation_events T src n dst =
     map (\<lambda>i. if nothrow_move_constructible T \<or> \<not> copy_constructible T
               then MoveConstruct (ptr_add src i) (ptr_add dst i)
               else CopyConstruct (ptr_add src i) (ptr_add dst i)) [0..<n]"

definition destroy_events :: "ptr \<Rightarrow> nat \<Rightarrow> event list" where
  "destroy_events p n = map (\<lambda>i. Destroy (ptr_add p i)) [0..<n]"

definition release_events :: "ptr \<Rightarrow> event list" where
  "release_events p = (case p of Nullptr \<Rightarrow> [] | Addr b i \<Rightarrow> [Deallocated b])"

text \<open>
  The calls that shift \<open>len\<close> elements starting at \<open>p\<close> one slot to the right, the last
  one first, each by move assignment.
\<close>

definition shift_events :: "ptr \<Rightarrow> nat \<Rightarrow> event list" where
  "shift_events p len = map (\<lambda>j. MoveAssign (ptr_add p j) (ptr_add p (Suc j))) (rev [0..<len])"

text \<open>
  The slot a constructor call changes besides the one it constructs into: the slot of the
  object an rvalue argument names, which is left moved-from.
\<close>

definition arg_cells :: "'a argument \<Rightarrow> (nat \<times> nat) set" where
  "arg_cells a = (case a of Rvalue q \<Rightarrow> cells q 1 | _ \<Rightarrow> {})"

text \<open>
  The allocator hands out addresses in increasing order, so the buffer a vector owns has
  an address below the next one. The last element of a vector is the slot at index
  \<open>size - 1\<close> of its buffer.
\<close>

definition owns_older_block :: "'a world \<Rightarrow> nat \<Rightarrow> bool" where
  "owns_older_block w this =
     (case raw_buffer (vec_data (vecs w this)) of Nullptr \<Rightarrow> True | Addr b i \<Rightarrow> b < next_block w)"

definition last_slot :: "'a world \<Rightarrow> nat \<Rightarrow> ptr" where
  "last_slot w this = ptr_add (Vector_begin (vecs w this)) (unat (Size (vecs w this)) - 1)"

text \<open>
  The value of the object a caller names, in a state. One append is a call of
  \<^verbatim>\<open>PushBack\<close> with an lvalue or an rvalue, which names an object outside the free store
  or in one of its slots, or a call of \<^verbatim>\<open>EmplaceBack\<close> with other constructor arguments;
  \<open>appends\<close> makes one append after the other and stops at the first that does not
  return.
\<close>

definition value_of :: "'a world \<Rightarrow> 'a object \<Rightarrow> 'a option" where
  "value_of w x = (case x of
      Outside v \<Rightarrow> Some v
    | Stored q \<Rightarrow> (case slot_of w q of Some (Obj v) \<Rightarrow> Some v | _ \<Rightarrow> None))"

definition append_one :: "'a elem_type \<Rightarrow> nat \<Rightarrow> 'a argument \<Rightarrow> ('a, retval) comp" where
  "append_one T this a = (case a of
      Values (CopyOf x) \<Rightarrow> PushBack_copy T this (Outside x)
    | Values (MoveOf x) \<Rightarrow> PushBack_move T this (Outside x)
    | Values (Args x) \<Rightarrow> bind (EmplaceBack T this (Values (Args x))) (\<lambda>_. ret Void)
    | Lvalue q \<Rightarrow> PushBack_copy T this (Stored q)
    | Rvalue q \<Rightarrow> PushBack_move T this (Stored q))"

primrec appends :: "'a elem_type \<Rightarrow> nat \<Rightarrow> 'a argument list \<Rightarrow> ('a, retval) comp" where
  "appends T this [] = ret Void"
| "appends T this (a # as) = bind (append_one T this a) (\<lambda>_. appends T this as)"

text \<open>\<open>c\<close> is the smallest of the values 1, 2, 4, 8, ... that is at least \<open>k\<close>.\<close>

definition doubling_for :: "nat \<Rightarrow> nat \<Rightarrow> bool" where
  "doubling_for c k \<longleftrightarrow>
     (\<exists>n. c = 2 ^ n \<and> k \<le> 2 ^ n \<and> (\<forall>m. k \<le> 2 ^ m \<longrightarrow> (2 :: nat) ^ n \<le> 2 ^ m))"

text \<open>
  The invariant of \<^verbatim>\<open>Vector\<close>: the size is within the capacity, the buffer is a block of
  exactly \<open>capacity\<close> slots (none at capacity 0), the slots \<open>[0, size)\<close> hold objects and
  the slots \<open>[size, capacity)\<close> are raw memory.
\<close>

definition live_prefix :: "'a world \<Rightarrow> nat \<Rightarrow> bool" where
  "live_prefix w this =
     (vec_size (vecs w this) \<le> Capacity (vecs w this) \<and>
      (case raw_buffer (vec_data (vecs w this)) of
         Nullptr \<Rightarrow> Capacity (vecs w this) = 0
       | Addr b i \<Rightarrow> (case heap w b of
             None \<Rightarrow> False
           | Some blk \<Rightarrow>
               i = 0 \<and> length blk = unat (Capacity (vecs w this)) \<and>
               list_all (\<lambda>s. s \<noteq> Raw) (take (unat (vec_size (vecs w this))) blk) \<and>
               list_all (\<lambda>s. s = Raw) (drop (unat (vec_size (vecs w this))) blk))))"

section \<open>Example element types and states\<close>

text \<open>
  Four element types over numbers. One behaves like \<^verbatim>\<open>int\<close>. One is like
  \<^verbatim>\<open>std::string\<close>, a number standing for a string of that many characters: its move
  constructor is \<^verbatim>\<open>noexcept\<close>, a moved-from string is empty, and a string of more than
  15 characters owns a buffer, while a shorter one is kept inside the object. One is like
  \<^verbatim>\<open>std::vector<int>\<close>, 0 standing for the empty vector: its move constructor is
  \<^verbatim>\<open>noexcept\<close>, a moved-from vector is empty, and every other vector owns a buffer.
  The last is a type whose move constructor may throw, whose copy constructor throws on the
  value 13, and whose objects all own a resource.
\<close>

definition T_int :: "nat elem_type" where
  "T_int = \<lparr>sizeof_T = 4, nothrow_move_constructible = True, copy_constructible = True,
     owns_resource = (\<lambda>_. False), copy_throws = (\<lambda>_. False), move_throws = (\<lambda>_. False),
     moved_from = (\<lambda>v. v), copy_assign_throws = (\<lambda>_. False),
     move_assign_throws = (\<lambda>_. False)\<rparr>"

definition T_string :: "nat elem_type" where
  "T_string = \<lparr>sizeof_T = 32, nothrow_move_constructible = True, copy_constructible = True,
     owns_resource = (\<lambda>v. 15 < v), copy_throws = (\<lambda>_. False), move_throws = (\<lambda>_. False),
     moved_from = (\<lambda>_. 0), copy_assign_throws = (\<lambda>_. False),
     move_assign_throws = (\<lambda>_. False)\<rparr>"

definition T_vector :: "nat elem_type" where
  "T_vector = \<lparr>sizeof_T = 24, nothrow_move_constructible = True, copy_constructible = True,
     owns_resource = (\<lambda>v. v \<noteq> 0), copy_throws = (\<lambda>_. False), move_throws = (\<lambda>_. False),
     moved_from = (\<lambda>_. 0), copy_assign_throws = (\<lambda>_. False),
     move_assign_throws = (\<lambda>_. False)\<rparr>"

definition T_legacy :: "nat elem_type" where
  "T_legacy = \<lparr>sizeof_T = 8, nothrow_move_constructible = False, copy_constructible = True,
     owns_resource = (\<lambda>_. True), copy_throws = (\<lambda>v. v = 13), move_throws = (\<lambda>_. False),
     moved_from = (\<lambda>_. 0), copy_assign_throws = (\<lambda>_. False),
     move_assign_throws = (\<lambda>_. False)\<rparr>"

text \<open>
  A state with nothing allocated, in which every \<^verbatim>\<open>Vector\<close> object is
  default-constructed and \<^verbatim>\<open>operator new\<close> never fails.
\<close>

definition empty_world :: "nat world" where
  "empty_world = \<lparr>heap = (\<lambda>_. None), next_block = 0, new_fails = (\<lambda>_ _. False),
     vecs = (\<lambda>_. Vector_default), trace = []\<rparr>"

text \<open>A vector of two elements in a buffer of capacity four.\<close>

definition two_of_four :: Vector where
  "two_of_four = \<lparr>vec_data = \<lparr>raw_buffer = Addr 0 0, raw_capacity = 4\<rparr>, vec_size = 2\<rparr>"

text \<open>
  Three appends, the last one \<^verbatim>\<open>v.PushBack(v[0])\<close>, and one append, to a
  default-constructed vector of \<^verbatim>\<open>int\<close>.
\<close>

definition three_items :: "nat argument list" where
  "three_items = [Values (CopyOf 1), Values (MoveOf 2), Lvalue (Addr 1 0)]"

definition three_appends :: "nat world" where
  "three_appends = snd (appends T_int 0 three_items empty_world)"

definition one_append :: "nat world" where
  "one_append = snd (append_one T_int 0 (Values (Args (Some 5))) empty_world)"

text \<open>The states after appending 7 to a default-constructed vector of \<^verbatim>\<open>int\<close>.\<close>

definition emplaced_seven :: "nat world" where
  "emplaced_seven = snd (EmplaceBack T_int 0 (Values (Args (Some 7))) empty_world)"

definition pushed_seven :: "nat world" where
  "pushed_seven = snd (PushBack_copy T_int 0 (Outside 7) empty_world)"

definition pushed_moved_seven :: "nat world" where
  "pushed_moved_seven = snd (PushBack_move T_int 0 (Outside 7) empty_world)"

text \<open>
  A vector holding 1 and 2 in a buffer of capacity four, and a full vector holding 1 and 2,
  for an element type \<open>T\<close>.
\<close>

definition two_in_four :: "nat elem_type \<Rightarrow> nat world" where
  "two_in_four T =
     snd (PushBack_copy T 0 (Outside 2)
       (snd (PushBack_copy T 0 (Outside 1) (snd (Reserve T 0 4 empty_world)))))"

definition full_two :: "nat elem_type \<Rightarrow> nat world" where
  "full_two T =
     snd (PushBack_copy T 0 (Outside 2) (snd (PushBack_copy T 0 (Outside 1) empty_world)))"

text \<open>\<^verbatim>\<open>v.PushBack(std::move(v[0]))\<close> on the full vector of \<^verbatim>\<open>int\<close>.\<close>

definition pushed_first :: "nat world" where
  "pushed_first = snd (PushBack_move T_int 0 (Stored (Addr 1 0)) (full_two T_int))"












text \<open>
  The states after inserting 9, and after trying to insert 13, at the front of a vector
  holding 1 and 2 in a buffer of capacity four.
\<close>

definition inserted_front :: "nat elem_type \<Rightarrow> nat world" where
  "inserted_front T = snd (Insert_copy T 0 (Addr 0 0) (Outside 9) (two_in_four T))"

definition failed_front :: "nat world" where
  "failed_front = snd (Insert_copy T_legacy 0 (Addr 0 0) (Outside 13) (two_in_four T_legacy))"



text \<open>The state after erasing the element that was inserted at the front.\<close>

definition erased_front :: "nat elem_type \<Rightarrow> nat world" where
  "erased_front T = snd (Erase T 0 (Addr 0 0) (inserted_front T))"

section \<open>RawMemory: transfer of ownership\<close>

lemma RawMemory_move_ctor_empties_source:
  "RawMemory_move_ctor m = (\<lparr>raw_buffer = raw_buffer m, raw_capacity = raw_capacity m\<rparr>,
     \<lparr>raw_buffer = Nullptr, raw_capacity = 0\<rparr>)"
  by (simp add: RawMemory_move_ctor_def)

lemma RawMemory_move_assign_capacity:
  "RawMemory_Capacity (snd (RawMemory_move_assign this other)) = RawMemory_Capacity other"
  by (simp add: RawMemory_move_assign_def RawMemory_Capacity_def Let_def)

text \<open>
  C3. Move construction and move assignment of \<^verbatim>\<open>RawMemory\<close> should both hand the
  buffer and the capacity to the destination and leave the source with a null buffer and
  capacity 0. The move constructor does. Move assignment does not: assigning a buffer of
  capacity 3 to a default-constructed \<^verbatim>\<open>RawMemory\<close> leaves the source with a null buffer
  and \<^verbatim>\<open>Capacity() == 3\<close>.
\<close>

theorem RawMemory_move_assign_leaves_capacity:
  "RawMemory_move_assign RawMemory_default \<lparr>raw_buffer = Addr 0 0, raw_capacity = 3\<rparr> =
     (\<lparr>raw_buffer = Addr 0 0, raw_capacity = 3\<rparr>, \<lparr>raw_buffer = Nullptr, raw_capacity = 3\<rparr>)"
  by (simp add: RawMemory_move_assign_def RawMemory_default_def)

section \<open>Iterators\<close>

text \<open>
  C10. \<^verbatim>\<open>end()\<close> returns for every vector whose size is within its capacity and whose
  buffer is null only at capacity 0; whenever it returns, \<^verbatim>\<open>begin() == end()\<close> holds
  exactly when \<^verbatim>\<open>Size()\<close> is 0. \<^verbatim>\<open>cbegin()\<close> and \<^verbatim>\<open>cend()\<close> agree with \<^verbatim>\<open>begin()\<close>
  and \<^verbatim>\<open>end()\<close>. On a default-constructed vector both are the null pointer.
\<close>

theorem begin_end_iff_empty:
  "(vec_size v \<le> Capacity v \<and> (raw_buffer (vec_data v) = Nullptr \<longrightarrow> Capacity v = 0)
      \<longrightarrow> (\<exists>e. Vector_end v = Inr e))
   \<and> (\<forall>e. Vector_end v = Inr e \<longrightarrow> (Vector_begin v = e \<longleftrightarrow> Size v = 0))
   \<and> Vector_cbegin v = Vector_begin v
   \<and> Vector_cend v = Vector_end v
   \<and> Vector_begin Vector_default = Nullptr
   \<and> Vector_end Vector_default = Inr Nullptr"
proof -
  have returns: "\<exists>e. Vector_end v = Inr e"
    if "vec_size v \<le> Capacity v" "raw_buffer (vec_data v) = Nullptr \<longrightarrow> Capacity v = 0"
    using that
    by (cases "raw_buffer (vec_data v)")
       (auto simp: Vector_end_def RawMemory_plus_def Capacity_def RawMemory_Capacity_def)
  have iff: "Vector_begin v = e \<longleftrightarrow> Size v = 0" if "Vector_end v = Inr e" for e
  proof (cases "vec_size v = 0")
    case True
    with that show ?thesis by (simp add: Vector_end_def Size_def)
  next
    case False
    then have "unat (vec_size v) \<noteq> 0" by (simp add: unat_eq_0)
    with that False show ?thesis
      by (cases "raw_buffer (vec_data v)")
         (auto simp: Vector_end_def RawMemory_plus_def Vector_begin_def GetAddress_def Size_def
               split: if_splits)
  qed
  show ?thesis
    using returns iff
    by (simp add: Vector_cbegin_def Vector_cend_def Vector_begin_def Vector_end_def
          Vector_default_def RawMemory_default_def GetAddress_def)
qed

theorem begin_end_iff_empty_witness:
  "Vector_end two_of_four = Inr (Addr 0 2) \<and> Vector_begin two_of_four \<noteq> Addr 0 2
   \<and> Size two_of_four \<noteq> 0 \<and> Vector_cend two_of_four = Inr (Addr 0 2)"
proof -
  have e: "Vector_end two_of_four = Inr (Addr 0 2)"
    by (simp add: two_of_four_def Vector_end_def RawMemory_plus_def)
  have s: "Size two_of_four \<noteq> 0"
    by (simp add: two_of_four_def Size_def)
  from begin_end_iff_empty [of two_of_four] e
  have "Vector_begin two_of_four = Addr 0 2 \<longleftrightarrow> Size two_of_four = 0"
    and "Vector_cend two_of_four = Vector_end two_of_four"
    by blast+
  with e s show ?thesis by simp
qed

section \<open>Copy assignment to itself\<close>

text \<open>
  C9. Copy-assigning a vector to itself returns \<^verbatim>\<open>*this\<close> and changes nothing: the
  members of every vector, the free store and the record of calls on elements are as
  before, so no element is copied, constructed or destroyed.
\<close>

theorem copy_assign_self_noop:
  "Vector_copy_assign T this this w = (Inr (This this), w)"
  by (simp add: Vector_copy_assign_def ret_def)

section \<open>Reasoning about computations\<close>

lemma same_but_refl: "same_but S w w"
  by (simp add: same_but_def)

lemma same_but_trans: "same_but S w w1 \<Longrightarrow> same_but S w1 w2 \<Longrightarrow> same_but S w w2"
  by (simp add: same_but_def)

lemma same_but_mono: "same_but S w w' \<Longrightarrow> S \<subseteq> S' \<Longrightarrow> same_but S' w w'"
  by (auto simp: same_but_def)

lemma touchesI: "(\<And>w r w'. m w = (r, w') \<Longrightarrow> same_but S w w') \<Longrightarrow> touches m S"
  by (simp add: touches_def)

lemma touchesD: "touches m S \<Longrightarrow> m w = (r, w') \<Longrightarrow> same_but S w w'"
  by (simp add: touches_def)

lemma touches_mono: "touches m S \<Longrightarrow> S \<subseteq> S' \<Longrightarrow> touches m S'"
  by (meson same_but_mono touches_def)

lemma touches_ret: "touches (ret x) S"
  by (simp add: touches_def ret_def same_but_refl)

lemma touches_raise: "touches (raise e) S"
  by (simp add: touches_def raise_def same_but_refl)

lemma touches_lift: "touches (lift r) S"
  by (simp add: touches_def lift_def same_but_refl)

lemma touches_log: "touches (log ev) S"
  by (auto simp: touches_def log_def same_but_def slot_of_def)

lemma touches_load: "touches (load p) S"
  by (auto simp: touches_def load_def same_but_refl split: option.splits slot.splits)

lemma touches_store: "cells p (Suc 0) \<subseteq> S \<Longrightarrow> touches (store p s) S"
  by (auto simp: touches_def store_def same_but_def slot_of_def cells_def nth_list_update
           split: ptr.splits option.splits if_splits)

lemma bind_cases:
  "bind m f w = (r, w') \<Longrightarrow>
     (\<exists>e. m w = (Inl e, w') \<and> r = Inl e) \<or> (\<exists>x w1. m w = (Inr x, w1) \<and> f x w1 = (r, w'))"
  by (auto simp: bind_def split: prod.splits sum.splits)

lemma bind_InrE:
  assumes "bind m f w = (Inr r, w')"
  obtains x w1 where "m w = (Inr x, w1)" and "f x w1 = (Inr r, w')"
  using bind_cases [OF assms] by auto

lemma on_exception_cases:
  "on_exception m c w = (r, w') \<Longrightarrow>
     (\<exists>x. m w = (Inr x, w') \<and> r = Inr x)
     \<or> (\<exists>e. m w = (Inl e, w') \<and> \<not> is_exception e \<and> r = Inl e)
     \<or> (\<exists>e w1 r'. m w = (Inl e, w1) \<and> is_exception e \<and> c w1 = (r', w')
           \<and> r = (case r' of Inr _ \<Rightarrow> Inl e | Inl e' \<Rightarrow> Inl e'))"
  by (auto simp: on_exception_def split: prod.splits sum.splits if_splits)

lemma touches_bind:
  assumes "touches m S" and "\<And>x. touches (f x) S"
  shows "touches (bind m f) S"
proof (rule touchesI)
  fix w r w'
  assume b: "bind m f w = (r, w')"
  note m = assms(1) and f = assms(2)
  from bind_cases [OF b] show "same_but S w w'"
  proof (elim disjE exE conjE)
    fix e assume "m w = (Inl e, w')"
    with m show ?thesis by (rule touchesD)
  next
    fix x w1 assume "m w = (Inr x, w1)" "f x w1 = (r, w')"
    with m f show ?thesis by (meson touchesD same_but_trans)
  qed
qed

lemma touches_on_exception:
  assumes "touches m S" and "touches c S"
  shows "touches (on_exception m c) S"
proof (rule touchesI)
  fix w r w'
  assume b: "on_exception m c w = (r, w')"
  note m = assms(1) and c = assms(2)
  from on_exception_cases [OF b] show "same_but S w w'"
    using m c by (meson touchesD same_but_trans)
qed

lemma emits_bind:
  "emits m e1 \<Longrightarrow> (\<And>x. emits (f x) e2) \<Longrightarrow> emits (bind m f) (e1 @ e2)"
  unfolding emits_def bind_def
  by (auto split: prod.splits sum.splits)

lemma emits_on_exception: "emits m e \<Longrightarrow> emits (on_exception m c) e"
  unfolding emits_def on_exception_def
  by (auto split: prod.splits sum.splits if_splits)

lemma emits_ret: "emits (ret x) []"
  by (simp add: emits_def ret_def)

lemma emits_raise: "emits (raise e) evs"
  by (simp add: emits_def raise_def)

lemma emits_lift: "emits (lift r) []"
  by (auto simp: emits_def lift_def)

lemma emits_log: "emits (log ev) [ev]"
  by (auto simp: emits_def log_def)

lemma emits_load: "emits (load p) []"
  by (auto simp: emits_def load_def split: option.splits slot.splits)

lemma emits_store: "emits (store p s) []"
  by (auto simp: emits_def store_def split: ptr.splits option.splits if_splits)

lemma emits_bind0:
  "emits m [] \<Longrightarrow> (\<And>x. emits (f x) e2) \<Longrightarrow> emits (bind m f) e2"
  using emits_bind [of m "[]" f e2] by simp

lemma cells_add_sub: "k < n \<Longrightarrow> cells (ptr_add p k) (Suc 0) \<subseteq> cells p n"
  by (cases p) (auto simp: cells_def)

lemma cells_mono: "m \<le> n \<Longrightarrow> cells p m \<subseteq> cells p n"
  by (cases p) (auto simp: cells_def)

lemmas touches_intros =
  touches_ret touches_raise touches_lift touches_log touches_load touches_bind
  touches_on_exception

lemma touches_construct:
  "arg_cells a \<subseteq> S \<Longrightarrow> touches (construct T a) S"
  unfolding construct_def
  by (cases a) (auto simp: arg_cells_def intro!: touches_intros touches_store)

lemma touches_construct_at:
  "cells p (Suc 0) \<subseteq> S \<Longrightarrow> arg_cells a \<subseteq> S \<Longrightarrow> touches (construct_at T p a) S"
  unfolding construct_at_def by (intro touches_intros touches_store touches_construct)

lemma touches_copy_construct: "cells dst (Suc 0) \<subseteq> S \<Longrightarrow> touches (copy_construct T src dst) S"
  unfolding copy_construct_def by (auto intro!: touches_intros touches_store)

lemma touches_move_construct:
  "cells src (Suc 0) \<subseteq> S \<Longrightarrow> cells dst (Suc 0) \<subseteq> S \<Longrightarrow> touches (move_construct T src dst) S"
  unfolding move_construct_def by (auto intro!: touches_intros touches_store)

lemma touches_copy_assign: "cells dst (Suc 0) \<subseteq> S \<Longrightarrow> touches (copy_assign T src dst) S"
  unfolding copy_assign_def by (auto intro!: touches_intros touches_store)

lemma touches_move_assign:
  "cells src (Suc 0) \<subseteq> S \<Longrightarrow> cells dst (Suc 0) \<subseteq> S \<Longrightarrow> touches (move_assign T src dst) S"
  unfolding move_assign_def by (auto intro!: touches_intros touches_store)

lemma touches_destroy_at: "cells p (Suc 0) \<subseteq> S \<Longrightarrow> touches (destroy_at T p) S"
  unfolding destroy_at_def by (auto intro!: touches_intros touches_store)

lemma touches_destroy_loop: "cells p (k + r) \<subseteq> S \<Longrightarrow> touches (destroy_loop T p k r) S"
proof (induction r arbitrary: k)
  case 0
  show ?case by (simp add: touches_ret)
next
  case (Suc r)
  have "cells (ptr_add p k) (Suc 0) \<subseteq> S"
    using cells_add_sub [of k "k + Suc r" p] Suc.prems by auto
  moreover have "touches (destroy_loop T p (Suc k) r) S"
    using Suc.IH [of "Suc k"] Suc.prems by simp
  ultimately show ?case
    by (auto intro!: touches_bind touches_destroy_at)
qed

lemma touches_destroy_n: "cells p n \<subseteq> S \<Longrightarrow> touches (destroy_n T p n) S"
  by (simp add: destroy_n_def touches_destroy_loop)

lemma touches_uninit_copy_loop:
  "cells dst (k + r) \<subseteq> S \<Longrightarrow> touches (uninit_copy_loop T src dst k r) S"
proof (induction r arbitrary: k)
  case 0
  show ?case by (simp add: touches_ret)
next
  case (Suc r)
  have one: "cells (ptr_add dst k) (Suc 0) \<subseteq> S"
    using cells_add_sub [of k "k + Suc r" dst] Suc.prems by auto
  have pre: "cells dst k \<subseteq> S"
    using cells_mono [of k "k + Suc r" dst] Suc.prems by auto
  have "touches (uninit_copy_loop T src dst (Suc k) r) S"
    using Suc.IH [of "Suc k"] Suc.prems by simp
  with one pre show ?case
    by (auto intro!: touches_bind touches_on_exception touches_copy_construct touches_destroy_n)
qed

lemma touches_uninit_move_loop:
  "cells src (k + r) \<subseteq> S \<Longrightarrow> cells dst (k + r) \<subseteq> S \<Longrightarrow>
   touches (uninit_move_loop T src dst k r) S"
proof (induction r arbitrary: k)
  case 0
  show ?case by (simp add: touches_ret)
next
  case (Suc r)
  have one: "cells (ptr_add dst k) (Suc 0) \<subseteq> S" "cells (ptr_add src k) (Suc 0) \<subseteq> S"
    using cells_add_sub [of k "k + Suc r" dst] cells_add_sub [of k "k + Suc r" src] Suc.prems
    by auto
  have pre: "cells dst k \<subseteq> S"
    using cells_mono [of k "k + Suc r" dst] Suc.prems by auto
  have "touches (uninit_move_loop T src dst (Suc k) r) S"
    using Suc.IH [of "Suc k"] Suc.prems by simp
  with one pre show ?case
    by (auto intro!: touches_bind touches_on_exception touches_move_construct touches_destroy_n)
qed

lemma touches_relocate_n:
  "cells dst n \<subseteq> S \<Longrightarrow> (moves T \<Longrightarrow> cells src n \<subseteq> S) \<Longrightarrow> touches (relocate_n T src n dst) S"
  by (simp add: relocate_n_def uninitialized_move_n_def uninitialized_copy_n_def
        touches_uninit_move_loop touches_uninit_copy_loop)

lemmas emits_intros = emits_ret emits_raise emits_lift emits_load emits_store emits_on_exception

lemma emitsD: "emits m evs \<Longrightarrow> m w = (Inr r, w') \<Longrightarrow> trace w' = trace w @ evs"
  by (simp add: emits_def)

lemma emits_log_bind: "emits (f ()) evs \<Longrightarrow> emits (bind (log ev) f) (ev # evs)"
  using emits_bind [OF emits_log, of f evs ev] by simp

lemma emits_construct: "emits (construct T a) []"
  unfolding construct_def
  by (cases a) (auto intro!: emits_bind0 emits_intros)


lemma construct_values: "construct T (Values args) = lift (make T args)"
  by (simp add: construct_def)

lemma emits_copy_construct: "emits (copy_construct T src dst) [CopyConstruct src dst]"
  unfolding copy_construct_def
  by (auto intro!: emits_log_bind emits_bind0 emits_intros)

lemma emits_move_construct: "emits (move_construct T src dst) [MoveConstruct src dst]"
  unfolding move_construct_def
  by (auto intro!: emits_log_bind emits_bind0 emits_intros)

lemma emits_copy_assign: "emits (copy_assign T src dst) [CopyAssign src dst]"
  unfolding copy_assign_def
  by (auto intro!: emits_log_bind emits_bind0 emits_intros)

lemma emits_move_assign: "emits (move_assign T src dst) [MoveAssign src dst]"
  unfolding move_assign_def
  by (auto intro!: emits_log_bind emits_bind0 emits_intros)

lemma emits_destroy_at: "emits (destroy_at T p) [Destroy p]"
  unfolding destroy_at_def
  by (auto intro!: emits_log_bind emits_bind0 emits_intros)

lemma emits_step:
  "emits m [ev] \<Longrightarrow> (\<And>x. emits (f x) evs) \<Longrightarrow> emits (bind m f) (ev # evs)"
  using emits_bind [of m "[ev]" f evs] by simp

lemma emits_destroy_loop:
  "emits (destroy_loop T p k r) (map (\<lambda>i. Destroy (ptr_add p i)) [k..<k + r])"
proof (induction r arbitrary: k)
  case 0
  show ?case by (simp add: emits_ret)
next
  case (Suc r)
  have "emits (destroy_loop T p k (Suc r))
          (Destroy (ptr_add p k) # map (\<lambda>i. Destroy (ptr_add p i)) [Suc k..<Suc k + r])"
    using Suc.IH [of "Suc k"] by (auto intro!: emits_step emits_destroy_at)
  moreover have "[k..<k + Suc r] = k # [Suc k..<Suc k + r]"
    by (metis add_Suc add_Suc_right less_add_Suc1 upt_conv_Cons)
  ultimately show ?case by (simp only: list.map)
qed

lemma emits_uninit_copy_loop:
  "emits (uninit_copy_loop T src dst k r)
     (map (\<lambda>i. CopyConstruct (ptr_add src i) (ptr_add dst i)) [k..<k + r])"
proof (induction r arbitrary: k)
  case 0
  show ?case by (simp add: emits_ret)
next
  case (Suc r)
  have "emits (uninit_copy_loop T src dst k (Suc r))
          (CopyConstruct (ptr_add src k) (ptr_add dst k)
           # map (\<lambda>i. CopyConstruct (ptr_add src i) (ptr_add dst i)) [Suc k..<Suc k + r])"
    using Suc.IH [of "Suc k"]
    by (auto intro!: emits_step emits_on_exception emits_copy_construct)
  moreover have "[k..<k + Suc r] = k # [Suc k..<Suc k + r]"
    by (metis add_Suc add_Suc_right less_add_Suc1 upt_conv_Cons)
  ultimately show ?case by (simp only: list.map)
qed

lemma emits_uninit_move_loop:
  "emits (uninit_move_loop T src dst k r)
     (map (\<lambda>i. MoveConstruct (ptr_add src i) (ptr_add dst i)) [k..<k + r])"
proof (induction r arbitrary: k)
  case 0
  show ?case by (simp add: emits_ret)
next
  case (Suc r)
  have "emits (uninit_move_loop T src dst k (Suc r))
          (MoveConstruct (ptr_add src k) (ptr_add dst k)
           # map (\<lambda>i. MoveConstruct (ptr_add src i) (ptr_add dst i)) [Suc k..<Suc k + r])"
    using Suc.IH [of "Suc k"]
    by (auto intro!: emits_step emits_on_exception emits_move_construct)
  moreover have "[k..<k + Suc r] = k # [Suc k..<Suc k + r]"
    by (metis add_Suc add_Suc_right less_add_Suc1 upt_conv_Cons)
  ultimately show ?case by (simp only: list.map)
qed

lemma emits_move_backward_loop:
  "emits (move_backward_loop T first d_first n)
     (map (\<lambda>i. MoveAssign (ptr_add first i) (ptr_add d_first i)) (rev [0..<n]))"
proof (induction n)
  case 0
  show ?case by (simp add: emits_ret)
next
  case (Suc n)
  then show ?case by (auto intro!: emits_step emits_move_assign)
qed

lemma emits_relocate_n: "emits (relocate_n T src n dst) (relocation_events T src n dst)"
  using emits_uninit_move_loop [of T src dst 0 n] emits_uninit_copy_loop [of T src dst 0 n]
  by (simp add: relocate_n_def relocation_events_def uninitialized_move_n_def
        uninitialized_copy_n_def moves_def)

lemma emits_destroy_n: "emits (destroy_n T p n) (destroy_events p n)"
  using emits_destroy_loop [of T p 0 n] by (simp add: destroy_n_def destroy_events_def)

lemma emits_RawMemory_dtor: "emits (RawMemory_dtor m) (release_events (raw_buffer m))"
  by (auto simp: emits_def RawMemory_dtor_def Deallocate_def operator_delete_def
        release_events_def split: ptr.splits if_splits)

lemma get_vec_eq: "get_vec this w = (Inr (vecs w this), w)"
  by (simp add: get_vec_def)

lemma lift_eq: "lift r w = (r', w') \<longleftrightarrow> r' = r \<and> w' = w"
  by (auto simp: lift_def)


lemma bind_get_vec: "bind (get_vec this) f w = f (vecs w this) w"
  by (simp add: bind_def get_vec_def)

lemma bind_ret: "bind (ret x) f w = f x w"
  by (simp add: bind_def ret_def)

lemma bind_lift: "bind (lift r) f w = (case r of Inl e \<Rightarrow> (Inl e, w) | Inr x \<Rightarrow> f x w)"
  by (simp add: bind_def lift_def split: sum.splits)

lemma bind_raise: "bind (raise e) f w = (Inl e, w)"
  by (simp add: bind_def raise_def)

lemma bind_set_size:
  "bind (set_size this n) f w = f () (w\<lparr>vecs := (vecs w)(this := (vecs w this)\<lparr>vec_size := n\<rparr>)\<rparr>)"
  by (simp add: bind_def set_size_def)

lemma bind_set_data:
  "bind (set_data this d) f w = f () (w\<lparr>vecs := (vecs w)(this := (vecs w this)\<lparr>vec_data := d\<rparr>)\<rparr>)"
  by (simp add: bind_def set_data_def)

lemma bind_log: "bind (log ev) f w = f () (w\<lparr>trace := trace w @ [ev]\<rparr>)"
  by (simp add: bind_def log_def)

lemmas bind_simps =
  bind_get_vec bind_ret bind_lift bind_raise bind_set_size bind_set_data bind_log

lemma RawMemory_Swap_eq: "RawMemory_Swap a b = (b, a)"
  by (cases a, cases b) (simp add: RawMemory_Swap_def)


lemma RawMemory_ctor_Inr:
  assumes "RawMemory_ctor T c w = (Inr d, w1)" and "c \<noteq> 0"
  shows "d = \<lparr>raw_buffer = Addr (next_block w) 0, raw_capacity = c\<rparr>"
    and "w1 = w\<lparr>heap := (heap w)(next_block w \<mapsto>
                  replicate (unat (c * sizeof_T T) div unat (sizeof_T T)) Raw),
               next_block := Suc (next_block w),
               trace := trace w @ [Allocated (next_block w) (unat (c * sizeof_T T))]\<rparr>"
  using assms
  by (auto simp: RawMemory_ctor_def Allocate_def operator_new_def bind_def ret_def
           split: if_splits)

lemma RawMemory_dtor_frame:
  assumes "RawMemory_dtor m w = (r, w')"
  shows "vecs w' = vecs w" and "next_block w' = next_block w" and "new_fails w' = new_fails w"
  using assms
  by (auto simp: RawMemory_dtor_def Deallocate_def operator_delete_def
           split: ptr.splits if_splits)

lemma RawMemory_dtor_Inr:
  assumes "RawMemory_dtor m w = (Inr u, w')"
  shows "(raw_buffer m = Nullptr \<and> w' = w)
       \<or> (\<exists>b. raw_buffer m = Addr b 0 \<and> heap w b \<noteq> None
              \<and> w' = w\<lparr>heap := (heap w)(b := None), trace := trace w @ [Deallocated b]\<rparr>)"
  using assms
  by (auto simp: RawMemory_dtor_def Deallocate_def operator_delete_def
           split: ptr.splits if_splits)

lemma same_but_vecs: "same_but S w w' \<Longrightarrow> vecs w' = vecs w"
  by (simp add: same_but_def)

lemma commit_Inr:
  assumes "commit T this nd w = (Inr u, w')"
  shows "vecs w' = (vecs w)(this := (vecs w this)\<lparr>vec_data := nd\<rparr>)"
    and "trace w' = trace w @ destroy_events (raw_buffer (vec_data (vecs w this)))
                               (unat (vec_size (vecs w this)))
                            @ release_events (raw_buffer (vec_data (vecs w this)))"
    and "next_block w' = next_block w"
proof -
  let ?v = "vecs w this"
  let ?w1 = "w\<lparr>vecs := (vecs w)(this := ?v\<lparr>vec_data := nd\<rparr>)\<rparr>"
  from assms obtain w2 where
    d: "destroy_n T (raw_buffer (vec_data ?v)) (unat (vec_size ?v)) ?w1 = (Inr (), w2)" and
    r: "RawMemory_dtor (vec_data ?v) w2 = (Inr u, w')"
    by (auto simp: commit_def get_vec_eq set_data_def RawMemory_Swap_eq GetAddress_def
             elim!: bind_InrE)
  have sb: "same_but (cells (raw_buffer (vec_data ?v)) (unat (vec_size ?v))) ?w1 w2"
    using touches_destroy_n [OF subset_refl] d by (rule touchesD)
  then have "vecs w2 = vecs ?w1" "next_block w2 = next_block ?w1"
    by (simp_all add: same_but_def)
  with RawMemory_dtor_frame [OF r]
  show "vecs w' = (vecs w)(this := ?v\<lparr>vec_data := nd\<rparr>)" and "next_block w' = next_block w"
    by simp_all
  have "trace w2 = trace ?w1 @ destroy_events (raw_buffer (vec_data ?v)) (unat (vec_size ?v))"
    using emits_destroy_n d by (rule emitsD)
  moreover have "trace w' = trace w2 @ release_events (raw_buffer (vec_data ?v))"
    using emits_RawMemory_dtor r by (rule emitsD)
  ultimately show "trace w' = trace w @ destroy_events (raw_buffer (vec_data ?v))
                               (unat (vec_size ?v))
                            @ release_events (raw_buffer (vec_data ?v))"
    by simp
qed

lemma on_exception_Inr: "on_exception m c w = (Inr x, w') \<longleftrightarrow> m w = (Inr x, w')"
  by (auto simp: on_exception_def split: prod.splits sum.splits)


lemma same_but_slot:
  "same_but S w w' \<Longrightarrow> (b, i) \<notin> S \<Longrightarrow> slot_of w' (Addr b i) = slot_of w (Addr b i)"
  by (simp add: same_but_def)

lemma cells_other_block: "\<forall>j. p \<noteq> Addr b j \<Longrightarrow> (b, i) \<notin> cells p n"
  by (cases p) (auto simp: cells_def)

lemma cells_below: "i < j \<or> j + n \<le> i \<Longrightarrow> (b, i) \<notin> cells (Addr c j) n"
  by (auto simp: cells_def)

lemma store_Inr:
  assumes "store p s w = (Inr u, w')"
  shows "slot_of w' p = Some s" and "trace w' = trace w" and "vecs w' = vecs w"
  using assms
  by (auto simp: store_def slot_of_def split: ptr.splits option.splits if_splits)

lemma slot_of_trace_update: "slot_of (w\<lparr>trace := t\<rparr>) p = slot_of w p"
  by (cases p) (simp_all add: slot_of_def)

lemma slot_of_vecs_update: "slot_of (w\<lparr>vecs := v\<rparr>) p = slot_of w p"
  by (cases p) (simp_all add: slot_of_def)

lemma load_Inr: "load p w = (Inr v, w') \<Longrightarrow> w' = w"
  by (auto simp: load_def split: option.splits slot.splits)

lemma construct_trace: "fst (construct T a (w\<lparr>trace := t\<rparr>)) = fst (construct T a w)"
proof (cases a)
  case (Values args)
  then show ?thesis by (simp add: construct_def lift_def)
next
  case (Lvalue q)
  then show ?thesis
    by (simp add: construct_def bind_def load_def lift_def slot_of_trace_update
             split: option.splits slot.splits sum.splits)
next
  case (Rvalue q)
  then show ?thesis
    by (cases q)
       (auto simp: construct_def bind_def load_def lift_def store_def ret_def
               slot_of_trace_update slot_of_def
             split: option.splits slot.splits sum.splits if_splits)
qed

lemma construct_Inr:
  assumes "construct T a w = (Inr val, w1)"
  shows "trace w1 = trace w" and "vecs w1 = vecs w"
proof -
  show "trace w1 = trace w"
    using emitsD [OF emits_construct assms] by simp
  have "same_but UNIV w w1"
    using touches_construct assms by (rule touchesD) simp
  then show "vecs w1 = vecs w" by (rule same_but_vecs)
qed

lemma construct_at_Inr:
  assumes "construct_at T p a w = (Inr u, w1)"
  obtains val where "fst (construct T a w) = Inr val"
    and "slot_of w1 p = Some (Obj val)"
    and "trace w1 = trace w @ [Construct p]"
    and "same_but (cells p (Suc 0) \<union> arg_cells a) w w1"
proof -
  let ?w0 = "w\<lparr>trace := trace w @ [Construct p]\<rparr>"
  have "bind (construct T a) (\<lambda>v. store p (Obj v)) ?w0 = (Inr u, w1)"
    using assms unfolding construct_at_def by (simp add: bind_log)
  then obtain val wc where mk: "construct T a ?w0 = (Inr val, wc)"
    and st: "store p (Obj val) wc = (Inr u, w1)"
    by (rule bind_InrE)
  from mk have "fst (construct T a w) = Inr val"
    using construct_trace [of T a "trace w @ [Construct p]" w] by simp
  moreover have "slot_of w1 p = Some (Obj val)"
    using st by (rule store_Inr(1))
  moreover have "trace w1 = trace w @ [Construct p]"
    using store_Inr(2) [OF st] construct_Inr(1) [OF mk] by simp
  moreover have "same_but (cells p (Suc 0) \<union> arg_cells a) w w1"
    by (rule touchesD [OF touches_construct_at assms]) simp_all
  ultimately show ?thesis using that by blast
qed

lemma commit_slot:
  assumes "commit T this nd w = (Inr u, w')"
    and other: "\<forall>j. raw_buffer (vec_data (vecs w this)) \<noteq> Addr b j"
  shows "slot_of w' (Addr b i) = slot_of w (Addr b i)"
proof -
  let ?v = "vecs w this"
  let ?w1 = "w\<lparr>vecs := (vecs w)(this := ?v\<lparr>vec_data := nd\<rparr>)\<rparr>"
  from assms(1) obtain w2 where
    d: "destroy_n T (raw_buffer (vec_data ?v)) (unat (vec_size ?v)) ?w1 = (Inr (), w2)" and
    r: "RawMemory_dtor (vec_data ?v) w2 = (Inr u, w')"
    by (auto simp: commit_def get_vec_eq set_data_def RawMemory_Swap_eq GetAddress_def
             elim!: bind_InrE)
  have sb: "same_but (cells (raw_buffer (vec_data ?v)) (unat (vec_size ?v))) ?w1 w2"
    using touches_destroy_n [OF subset_refl] d by (rule touchesD)
  have "slot_of w2 (Addr b i) = slot_of ?w1 (Addr b i)"
    using sb cells_other_block [OF other] by (rule same_but_slot)
  moreover have "slot_of w' (Addr b i) = slot_of w2 (Addr b i)"
    using RawMemory_dtor_Inr [OF r] other by (auto simp: slot_of_def)
  ultimately show ?thesis by (simp add: slot_of_def)
qed

lemma Vector_update_both:
  "(v :: Vector)\<lparr>vec_data := a, vec_size := b\<rparr> = \<lparr>vec_data = a, vec_size = b\<rparr>"
  by (cases v) simp

lemma grown_nonzero: "n \<le> grown n \<Longrightarrow> grown n \<noteq> 0"
  by (auto simp: grown_def split: if_splits)

lemma EmplaceBack_inplace:
  assumes ok: "EmplaceBack T this a w = (Inr r, w')"
    and room: "vec_size (vecs w this) < Capacity (vecs w this)"
  shows "\<exists>b i val. raw_buffer (vec_data (vecs w this)) = Addr b i
           \<and> fst (construct T a w) = Inr val
           \<and> r = Ref (Addr b (i + unat (vec_size (vecs w this))))
           \<and> slot_of w' (Addr b (i + unat (vec_size (vecs w this)))) = Some (Obj val)
           \<and> vecs w' = (vecs w)(this := (vecs w this)\<lparr>vec_size := vec_size (vecs w this) + 1\<rparr>)
           \<and> trace w' = trace w @ [Construct (Addr b (i + unat (vec_size (vecs w this))))]
           \<and> next_block w' = next_block w"
proof -
  let ?v = "vecs w this"
  let ?n = "vec_size ?v + 1"
  from ok room obtain u w1 where
    a: "bind (lift (RawMemory_plus (vec_data ?v) (vec_size ?v))) (\<lambda>p. construct_at T p a) w
          = (Inr u, w1)" and
    rest: "bind (set_size this ?n) (\<lambda>_.
           bind (get_vec this) (\<lambda>v'.
           bind (lift (RawMemory_index (vec_data v') (vec_size v' - 1))) (\<lambda>p.
           ret (Ref p)))) w1 = (Inr r, w')"
    unfolding EmplaceBack_def by (simp add: bind_get_vec) (erule bind_InrE, simp)
  from a obtain p where
    p: "RawMemory_plus (vec_data ?v) (vec_size ?v) = Inr p" and
    c: "construct_at T p a w = (Inr u, w1)"
    by (auto simp: bind_lift split: sum.splits)
  from c obtain val where
    mk: "fst (construct T a w) = Inr val" and
    sl: "slot_of w1 p = Some (Obj val)" and
    t1: "trace w1 = trace w @ [Construct p]" and
    sb: "same_but (cells p (Suc 0) \<union> arg_cells a) w w1"
    by (rule construct_at_Inr)
  from sl obtain b j where pa: "p = Addr b j"
    by (cases p) (simp_all add: slot_of_def)
  from p pa obtain i where buf: "raw_buffer (vec_data ?v) = Addr b i"
    and ji: "j = i + unat (vec_size ?v)"
    by (auto simp: RawMemory_plus_def split: if_splits ptr.splits)
  from sb have v1: "vecs w1 = vecs w" and n1: "next_block w1 = next_block w"
    by (simp_all add: same_but_def)
  from rest v1 buf p pa ji have
    "r = Ref (Addr b (i + unat (vec_size ?v)))" and
    "w' = w1\<lparr>vecs := (vecs w1)(this := (vecs w1 this)\<lparr>vec_size := vec_size ?v + 1\<rparr>)\<rparr>"
    by (auto simp: bind_simps ret_def RawMemory_index_def RawMemory_plus_def
             split: if_splits sum.splits)
  with v1 n1 t1 sl mk buf ji pa show ?thesis
    by (simp add: slot_of_vecs_update)
qed

lemma construct_before_alloc:
  assumes "fst (construct T a w1) = Inr val"
    and "heap w1 = (heap w)(nb \<mapsto> replicate n Raw)"
  shows "fst (construct T a w) = Inr val"
proof (cases a)
  case (Values args)
  with assms(1) show ?thesis by (simp add: construct_def lift_def)
next
  case (Lvalue q)
  with assms show ?thesis
    by (cases q)
       (auto simp: construct_def bind_def load_def lift_def slot_of_def
             split: option.splits slot.splits sum.splits if_splits)
next
  case (Rvalue q)
  with assms show ?thesis
    by (cases q)
       (auto simp: construct_def bind_def load_def lift_def store_def ret_def slot_of_def
             split: option.splits slot.splits sum.splits if_splits)
qed

lemma EmplaceBack_grow:
  assumes ok: "EmplaceBack T this a w = (Inr r, w')"
    and full: "\<not> vec_size (vecs w this) < Capacity (vecs w this)"
  shows "vec_size (vecs w this) \<le> grown (vec_size (vecs w this))"
    and "r = Ref (Addr (next_block w) (unat (vec_size (vecs w this))))"
    and "vecs w' = (vecs w)(this :=
           \<lparr>vec_data = \<lparr>raw_buffer = Addr (next_block w) 0,
                         raw_capacity = grown (vec_size (vecs w this))\<rparr>,
            vec_size = vec_size (vecs w this) + 1\<rparr>)"
    and "trace w' = trace w
           @ [Allocated (next_block w) (unat (grown (vec_size (vecs w this)) * sizeof_T T)),
              Construct (Addr (next_block w) (unat (vec_size (vecs w this))))]
           @ relocation_events T (raw_buffer (vec_data (vecs w this)))
               (unat (vec_size (vecs w this))) (Addr (next_block w) 0)
           @ destroy_events (raw_buffer (vec_data (vecs w this))) (unat (vec_size (vecs w this)))
           @ release_events (raw_buffer (vec_data (vecs w this)))"
    and "\<exists>val. fst (construct T a w) = Inr val \<and>
           ((\<forall>j. raw_buffer (vec_data (vecs w this)) \<noteq> Addr (next_block w) j) \<longrightarrow>
            slot_of w' (Addr (next_block w) (unat (vec_size (vecs w this)))) = Some (Obj val))"
    and "next_block w' = Suc (next_block w)"
proof -
  let ?v = "vecs w this"
  let ?n = "vec_size ?v"
  let ?old = "raw_buffer (vec_data ?v)"
  let ?nb = "next_block w"
  from ok full obtain w4 where
    g: "bind (RawMemory_ctor T (grown ?n)) (\<lambda>new_data.
          bind (on_exception
                  (bind (lift (RawMemory_plus new_data ?n)) (\<lambda>p.
                   bind (construct_at T p a) (\<lambda>_.
                   relocate_n T (GetAddress (vec_data ?v)) (unat ?n) (GetAddress new_data))))
                  (RawMemory_dtor new_data)) (\<lambda>_.
          commit T this new_data)) w = (Inr (), w4)" and
    rest: "bind (set_size this (?n + 1)) (\<lambda>_.
           bind (get_vec this) (\<lambda>v'.
           bind (lift (RawMemory_index (vec_data v') (vec_size v' - 1))) (\<lambda>p.
           ret (Ref p)))) w4 = (Inr r, w')"
    unfolding EmplaceBack_def by (simp add: bind_get_vec) (erule bind_InrE, simp)
  from g obtain d w1 where
    a: "RawMemory_ctor T (grown ?n) w = (Inr d, w1)" and
    g1: "bind (on_exception
                  (bind (lift (RawMemory_plus d ?n)) (\<lambda>p.
                   bind (construct_at T p a) (\<lambda>_.
                   relocate_n T (GetAddress (vec_data ?v)) (unat ?n) (GetAddress d))))
                  (RawMemory_dtor d)) (\<lambda>_.
          commit T this d) w1 = (Inr (), w4)"
    by (rule bind_InrE)
  from g1 obtain w3 where
    body: "bind (lift (RawMemory_plus d ?n)) (\<lambda>p.
           bind (construct_at T p a) (\<lambda>_.
           relocate_n T (GetAddress (vec_data ?v)) (unat ?n) (GetAddress d))) w1 = (Inr (), w3)"
    and k: "commit T this d w3 = (Inr (), w4)"
    by (auto simp: on_exception_Inr elim!: bind_InrE)
  from body obtain p where
    p: "RawMemory_plus d ?n = Inr p" and
    body2: "bind (construct_at T p a) (\<lambda>_.
              relocate_n T (GetAddress (vec_data ?v)) (unat ?n) (GetAddress d)) w1 = (Inr (), w3)"
    by (auto simp: bind_lift split: sum.splits)
  from body2 obtain w2 where
    c: "construct_at T p a w1 = (Inr (), w2)" and
    m: "relocate_n T ?old (unat ?n) (raw_buffer d) w2 = (Inr (), w3)"
    by (auto simp: GetAddress_def elim!: bind_InrE)
  have cap: "raw_capacity d = grown ?n"
    using a by (auto simp: RawMemory_ctor_def bind_def ret_def split: prod.splits sum.splits)
  from p cap show le: "?n \<le> grown ?n"
    by (auto simp: RawMemory_plus_def split: if_splits)
  note d = RawMemory_ctor_Inr [OF a grown_nonzero [OF le]]
  from p d(1) le have pa: "p = Addr ?nb (unat ?n)"
    by (simp add: RawMemory_plus_def)
  from c obtain val where
    mk1: "fst (construct T a w1) = Inr val" and
    sl2: "slot_of w2 p = Some (Obj val)" and
    t2: "trace w2 = trace w1 @ [Construct p]" and
    sb2: "same_but (cells p (Suc 0) \<union> arg_cells a) w1 w2"
    by (rule construct_at_Inr)
  have mk: "fst (construct T a w) = Inr val"
    using mk1 by (rule construct_before_alloc) (simp add: d(2))
  have sb: "same_but (cells (Addr ?nb 0) (unat ?n) \<union> cells ?old (unat ?n)) w2 w3"
    using d(1) by (intro touchesD [OF touches_relocate_n m]) auto
  have v3: "vecs w3 = vecs w" and n3: "next_block w3 = Suc ?nb"
    using sb sb2 d(2) by (simp_all add: same_but_def)
  have t3: "trace w3 = trace w2 @ relocation_events T ?old (unat ?n) (Addr ?nb 0)"
    using emitsD [OF emits_relocate_n m] d(1) by simp
  note k' = commit_Inr [OF k]
  have v4: "vecs w4 = (vecs w)(this := ?v\<lparr>vec_data := d\<rparr>)"
    using k'(1) v3 by simp
  from rest v4 d(1) le have r: "r = Ref (Addr ?nb (unat ?n))"
    and w': "w' = w4\<lparr>vecs := (vecs w4)(this := (vecs w4 this)\<lparr>vec_size := ?n + 1\<rparr>)\<rparr>"
    by (auto simp: bind_simps ret_def RawMemory_index_def split: sum.splits if_splits)
  from r show "r = Ref (Addr ?nb (unat ?n))" .
  from w' v4 d(1) show "vecs w' = (vecs w)(this :=
           \<lparr>vec_data = \<lparr>raw_buffer = Addr ?nb 0, raw_capacity = grown ?n\<rparr>,
            vec_size = ?n + 1\<rparr>)"
    by (simp add: Vector_update_both)
  from w' k'(2) v3 t3 t2 d(2) pa show "trace w' = trace w
           @ [Allocated ?nb (unat (grown ?n * sizeof_T T)), Construct (Addr ?nb (unat ?n))]
           @ relocation_events T ?old (unat ?n) (Addr ?nb 0)
           @ destroy_events ?old (unat ?n)
           @ release_events ?old"
    by simp
  from w' k'(3) n3 show "next_block w' = Suc ?nb" by simp
  have "slot_of w' (Addr ?nb (unat ?n)) = Some (Obj val)"
    if other: "\<forall>j. ?old \<noteq> Addr ?nb j"
  proof -
    have "slot_of w2 (Addr ?nb (unat ?n)) = Some (Obj val)"
      using sl2 pa by simp
    moreover have "(?nb, unat ?n) \<notin> cells (Addr ?nb 0) (unat ?n) \<union> cells ?old (unat ?n)"
      using cells_other_block [OF other, of "unat ?n" "unat ?n"] by (simp add: cells_def)
    then have "slot_of w3 (Addr ?nb (unat ?n)) = slot_of w2 (Addr ?nb (unat ?n))"
      by (rule same_but_slot [OF sb])
    moreover have "slot_of w4 (Addr ?nb (unat ?n)) = slot_of w3 (Addr ?nb (unat ?n))"
      using k other v3 by (intro commit_slot) auto
    ultimately show ?thesis using w' by (simp add: slot_of_def)
  qed
  with mk show "\<exists>val. fst (construct T a w) = Inr val \<and>
           ((\<forall>j. ?old \<noteq> Addr ?nb j) \<longrightarrow> slot_of w' (Addr ?nb (unat ?n)) = Some (Obj val))"
    by blast
qed

lemma unat_succ_below: "(x :: size_t) < y \<Longrightarrow> unat (x + 1) = Suc (unat x)"
  by unat_arith

lemma unat_byte_bound: "unat (x :: size_t) < 2 ^ 64"
  using unsigned_less [of x, where ?'a = nat] by simp

lemma unat_double:
  assumes "(x :: size_t) \<le> x * 2" and "x \<noteq> 0"
  shows "unat (x * 2) = 2 * unat x" and "unat (x + 1) = Suc (unat x)"
proof -
  have b: "unat x < 2 ^ 64" by (rule unat_byte_bound)
  have p: "0 < unat x" using assms(2) by (simp add: unat_gt_0)
  have m: "unat (x * 2) = (unat x * 2) mod 2 ^ 64"
    by (simp add: unat_word_ariths)
  have le: "unat x \<le> unat (x * 2)"
    using assms(1) by (simp add: word_le_nat_alt)
  have small: "unat x * 2 < 2 ^ 64"
  proof (rule ccontr)
    assume "\<not> unat x * 2 < 2 ^ 64"
    then have big: "2 ^ 64 \<le> unat x * 2" by simp
    have "(unat x * 2) mod 2 ^ 64 = unat x * 2 - 2 ^ 64"
      using big b by (simp add: mod_if le_mod_geq)
    with m le b p show False by simp
  qed
  then show "unat (x * 2) = 2 * unat x" using m by simp
  have "unat (x + 1) = (unat x + 1) mod 2 ^ 64"
    by (simp add: unat_word_ariths)
  with small show "unat (x + 1) = Suc (unat x)" by simp
qed

lemma append_one_eq:
  "append_one T this a = bind (EmplaceBack T this a) (\<lambda>_. ret Void)"
proof (cases a)
  case (Values args)
  then show ?thesis
    by (cases args)
       (simp_all add: append_one_def PushBack_copy_def PushBack_move_def lvalue_def rvalue_def)
qed (simp_all add: append_one_def PushBack_copy_def PushBack_move_def lvalue_def rvalue_def)

lemma append_one_Inr:
  assumes "append_one T this a w = (Inr r, w')"
  obtains q where "EmplaceBack T this a w = (Inr q, w')" and "r = Void"
  using assms unfolding append_one_eq by (auto simp: ret_def elim!: bind_InrE)

lemma EmplaceBack_size:
  assumes ok: "EmplaceBack T this a w = (Inr r, w')"
  shows "unat (vec_size (vecs w' this)) = Suc (unat (vec_size (vecs w this)))"
proof (cases "vec_size (vecs w this) < Capacity (vecs w this)")
  case True
  from EmplaceBack_inplace [OF ok True] unat_succ_below [OF True]
  show ?thesis by auto
next
  case False
  note g = EmplaceBack_grow [OF ok False]
  show ?thesis
  proof (cases "vec_size (vecs w this) = 0")
    case True
    with g(3) show ?thesis by simp
  next
    case nz: False
    with g(1) have "vec_size (vecs w this) \<le> vec_size (vecs w this) * 2"
      by (simp add: grown_def)
    from unat_double(2) [OF this nz] g(3) show ?thesis by simp
  qed
qed

lemma EmplaceBack_capacity:
  assumes ok: "EmplaceBack T this a w = (Inr r, w')"
  shows "unat (Capacity (vecs w' this)) =
           (if vec_size (vecs w this) < Capacity (vecs w this) then unat (Capacity (vecs w this))
            else if vec_size (vecs w this) = 0 then 1
            else 2 * unat (vec_size (vecs w this)))"
proof (cases "vec_size (vecs w this) < Capacity (vecs w this)")
  case True
  from EmplaceBack_inplace [OF ok True]
  show ?thesis using True by (auto simp: Capacity_def RawMemory_Capacity_def)
next
  case False
  note g = EmplaceBack_grow [OF ok False]
  show ?thesis
  proof (cases "vec_size (vecs w this) = 0")
    case True
    with g(3) False show ?thesis
      by (simp add: Capacity_def RawMemory_Capacity_def grown_def)
  next
    case nz: False
    with g(1) have "vec_size (vecs w this) \<le> vec_size (vecs w this) * 2"
      by (simp add: grown_def)
    from unat_double(1) [OF this nz] g(3) False nz show ?thesis
      by (simp add: Capacity_def RawMemory_Capacity_def grown_def)
  qed
qed

lemma doubling_for_one: "doubling_for (Suc 0) (Suc 0)"
  unfolding doubling_for_def by (rule exI [of _ 0]) simp

lemma doubling_for_room: "doubling_for c k \<Longrightarrow> k < c \<Longrightarrow> doubling_for c (Suc k)"
  unfolding doubling_for_def by (metis Suc_leD Suc_leI)

lemma doubling_for_full:
  assumes "doubling_for c k" and "c \<le> k"
  shows "doubling_for (2 * k) (Suc k)"
proof -
  from assms obtain n where n: "c = 2 ^ n" "k \<le> 2 ^ n" by (auto simp: doubling_for_def)
  with assms(2) have k: "k = 2 ^ n" by simp
  have "2 ^ Suc n \<le> (2 :: nat) ^ m" if "Suc k \<le> 2 ^ m" for m
  proof -
    have "n < m"
    proof (rule ccontr)
      assume "\<not> n < m"
      then have "m \<le> n" by simp
      then have "(2 :: nat) ^ m \<le> 2 ^ n" by (rule power_increasing) simp
      with that k show False by simp
    qed
    then have "Suc n \<le> m" by simp
    then show ?thesis by (rule power_increasing) simp
  qed
  moreover have "Suc k \<le> 2 ^ Suc n" using k by simp
  moreover have "2 * k = 2 ^ Suc n" using k by simp
  ultimately show ?thesis unfolding doubling_for_def by blast
qed

lemma appends_invariant:
  assumes "appends T this as w = (Inr r, w')"
    and "unat (vec_size (vecs w this)) = k"
    and "if k = 0 then Capacity (vecs w this) = 0 else doubling_for (unat (Capacity (vecs w this))) k"
  shows "unat (vec_size (vecs w' this)) = k + length as \<and>
         (if k + length as = 0 then Capacity (vecs w' this) = 0
          else doubling_for (unat (Capacity (vecs w' this))) (k + length as))"
  using assms
proof (induction as arbitrary: w k r)
  case Nil
  then show ?case by (auto simp: ret_def)
next
  case (Cons a as)
  from Cons.prems(1) obtain q w1 where
    one: "append_one T this a w = (Inr q, w1)" and
    more: "appends T this as w1 = (Inr r, w')"
    by (auto elim!: bind_InrE)
  from one obtain q' where eb: "EmplaceBack T this a w = (Inr q', w1)"
    by (rule append_one_Inr)
  have sz: "unat (vec_size (vecs w1 this)) = Suc k"
    using EmplaceBack_size [OF eb] Cons.prems(2) by simp
  have cap: "doubling_for (unat (Capacity (vecs w1 this))) (Suc k)"
  proof (cases "vec_size (vecs w this) < Capacity (vecs w this)")
    case True
    then have lt: "k < unat (Capacity (vecs w this))"
      using Cons.prems(2) by (simp add: word_less_nat_alt)
    then have "k \<noteq> 0 \<or> Capacity (vecs w this) \<noteq> 0" by auto
    with Cons.prems(3) lt have "doubling_for (unat (Capacity (vecs w this))) k"
      by (auto split: if_splits simp: doubling_for_def intro: exI [of _ 0])
    from doubling_for_room [OF this lt] EmplaceBack_capacity [OF eb] True
    show ?thesis by simp
  next
    case False
    show ?thesis
    proof (cases "k = 0")
      case True
      then have "vec_size (vecs w this) = 0"
        using Cons.prems(2) by (simp add: unat_eq_0)
      with EmplaceBack_capacity [OF eb] False True show ?thesis
        by (simp add: doubling_for_one)
    next
      case nz: False
      then have z: "vec_size (vecs w this) \<noteq> 0"
        using Cons.prems(2) by auto
      from False have "unat (Capacity (vecs w this)) \<le> k"
        using Cons.prems(2) by (simp add: word_less_nat_alt)
      from doubling_for_full [OF _ this] Cons.prems(3) nz
      have "doubling_for (2 * k) (Suc k)" by simp
      with EmplaceBack_capacity [OF eb] False z Cons.prems(2) show ?thesis by simp
    qed
  qed
  from Cons.IH [OF more sz] cap show ?case by simp
qed

section \<open>Growth by doubling\<close>

text \<open>
  C6. Starting from a default-constructed vector, when \<open>k \<ge> 1\<close> consecutive appends have
  all returned, \<^verbatim>\<open>Size()\<close> is \<open>k\<close> and \<^verbatim>\<open>Capacity()\<close> is the smallest of the values
  1, 2, 4, 8, ... that is at least \<open>k\<close>. An append on a full vector that returns takes
  capacity 0 to 1 and doubles any other capacity.
\<close>

theorem capacity_after_appends:
  "(vecs w this = Vector_default \<and> as \<noteq> [] \<and> appends T this as w = (Inr r, w') \<longrightarrow>
      unat (Size (vecs w' this)) = length as \<and>
      (\<exists>n. unat (Capacity (vecs w' this)) = 2 ^ n \<and> length as \<le> 2 ^ n
           \<and> (\<forall>m. length as \<le> 2 ^ m \<longrightarrow> (2 :: nat) ^ n \<le> 2 ^ m)))
   \<and> (Size (vecs u this) = Capacity (vecs u this) \<and> append_one T this a u = (Inr q, u') \<longrightarrow>
      unat (Capacity (vecs u' this)) =
        (if Capacity (vecs u this) = 0 then 1 else 2 * unat (Capacity (vecs u this))))"
proof (intro conjI impI)
  assume h: "vecs w this = Vector_default \<and> as \<noteq> [] \<and> appends T this as w = (Inr r, w')"
  then have "unat (vec_size (vecs w this)) = 0" and "Capacity (vecs w this) = 0"
    by (simp_all add: Vector_default_def RawMemory_default_def Capacity_def
          RawMemory_Capacity_def)
  with h appends_invariant [of T this as w r w' 0]
  have "unat (vec_size (vecs w' this)) = length as"
    and "doubling_for (unat (Capacity (vecs w' this))) (length as)"
    by simp_all
  then show "unat (Size (vecs w' this)) = length as"
    and "\<exists>n. unat (Capacity (vecs w' this)) = 2 ^ n \<and> length as \<le> 2 ^ n
           \<and> (\<forall>m. length as \<le> 2 ^ m \<longrightarrow> (2 :: nat) ^ n \<le> 2 ^ m)"
    by (simp_all add: Size_def doubling_for_def)
next
  assume h: "Size (vecs u this) = Capacity (vecs u this) \<and> append_one T this a u = (Inr q, u')"
  then obtain q' where "EmplaceBack T this a u = (Inr q', u')"
    by (auto elim: append_one_Inr)
  from EmplaceBack_capacity [OF this] h
  show "unat (Capacity (vecs u' this)) =
        (if Capacity (vecs u this) = 0 then 1 else 2 * unat (Capacity (vecs u this)))"
    by (simp add: Size_def)
qed

theorem capacity_after_appends_witness:
  "(unat (Size (vecs three_appends 0)) = length three_items
    \<and> (\<exists>n. unat (Capacity (vecs three_appends 0)) = 2 ^ n \<and> length three_items \<le> 2 ^ n
           \<and> (\<forall>m. length three_items \<le> 2 ^ m \<longrightarrow> (2 :: nat) ^ n \<le> 2 ^ m)))
   \<and> length three_items = 3
   \<and> unat (Capacity (vecs three_appends 0)) = 4
   \<and> unat (Capacity (vecs one_append 0)) =
        (if Capacity (vecs empty_world 0) = 0 then 1 else 2 * unat (Capacity (vecs empty_world 0)))
   \<and> unat (Capacity (vecs one_append 0)) = 1"
proof -
  have run: "appends T_int 0 three_items empty_world = (Inr Void, three_appends)"
    unfolding three_appends_def by (rule prod_eqI) (code_simp, simp)
  have start: "vecs empty_world 0 = Vector_default"
    by (simp add: empty_world_def)
  have ne: "three_items \<noteq> []"
    by (simp add: three_items_def)
  have one: "append_one T_int 0 (Values (Args (Some 5))) empty_world = (Inr Void, one_append)"
    unfolding one_append_def by (rule prod_eqI) (code_simp, simp)
  have full: "Size (vecs empty_world 0) = Capacity (vecs empty_world 0)"
    by code_simp
  note inst = capacity_after_appends
         [of empty_world 0 three_items T_int Void three_appends
             empty_world "Values (Args (Some 5))" Void one_append]
  have a: "unat (Size (vecs three_appends 0)) = length three_items
    \<and> (\<exists>n. unat (Capacity (vecs three_appends 0)) = 2 ^ n \<and> length three_items \<le> 2 ^ n
           \<and> (\<forall>m. length three_items \<le> 2 ^ m \<longrightarrow> (2 :: nat) ^ n \<le> 2 ^ m))"
    using inst run start ne by blast
  have b: "unat (Capacity (vecs one_append 0)) =
        (if Capacity (vecs empty_world 0) = 0 then 1 else 2 * unat (Capacity (vecs empty_world 0)))"
    using inst one full by blast
  have c: "length three_items = 3"
    by (simp add: three_items_def)
  have d: "unat (Capacity (vecs three_appends 0)) = 4"
    unfolding three_appends_def by code_simp
  have e: "unat (Capacity (vecs one_append 0)) = 1"
    unfolding one_append_def by code_simp
  from a b c d e show ?thesis by blast
qed

section \<open>Appending one element\<close>

lemma EmplaceBack_last_slot:
  assumes ok: "EmplaceBack T this a w = (Inr r, w')" and old: "owns_older_block w this"
  shows "unat (Size (vecs w' this)) = unat (Size (vecs w this)) + 1"
    and "r = Ref (last_slot w' this)"
    and "\<exists>val. fst (construct T a w) = Inr val
           \<and> slot_of w' (last_slot w' this) = Some (Obj val)"
proof -
  let ?n = "vec_size (vecs w this)"
  note sz = EmplaceBack_size [OF ok]
  from sz show "unat (Size (vecs w' this)) = unat (Size (vecs w this)) + 1"
    by (simp add: Size_def)
  have "r = Ref (last_slot w' this) \<and>
        (\<exists>val. fst (construct T a w) = Inr val
           \<and> slot_of w' (last_slot w' this) = Some (Obj val))"
  proof (cases "?n < Capacity (vecs w this)")
    case True
    from EmplaceBack_inplace [OF ok True] sz show ?thesis
      by (auto simp: last_slot_def Vector_begin_def GetAddress_def Size_def)
  next
    case False
    note g = EmplaceBack_grow [OF ok False]
    from old have "\<forall>j. raw_buffer (vec_data (vecs w this)) \<noteq> Addr (next_block w) j"
      by (auto simp: owns_older_block_def)
    with g(5) obtain val where "fst (construct T a w) = Inr val"
      and "slot_of w' (Addr (next_block w) (unat ?n)) = Some (Obj val)"
      by blast
    moreover have "last_slot w' this = Addr (next_block w) (unat ?n)"
      using g(3) sz by (simp add: last_slot_def Vector_begin_def GetAddress_def Size_def)
    ultimately show ?thesis using g(2) by simp
  qed
  then show "r = Ref (last_slot w' this)"
    and "\<exists>val. fst (construct T a w) = Inr val
           \<and> slot_of w' (last_slot w' this) = Some (Obj val)"
    by blast+
qed

lemma construct_lvalue:
  "fst (construct T (lvalue x) w) = Inr val \<Longrightarrow> value_of w x = Some val"
  by (cases x)
     (auto simp: construct_def lvalue_def value_of_def make_def bind_def load_def lift_def
           split: option.splits slot.splits sum.splits if_splits)

lemma construct_rvalue:
  "fst (construct T (rvalue x) w) = Inr val \<Longrightarrow> value_of w x = Some val"
  by (cases x)
     (auto simp: construct_def rvalue_def value_of_def make_def bind_def load_def lift_def
             store_def ret_def
           split: option.splits slot.splits sum.splits if_splits ptr.splits)

text \<open>
  C5, as amended. An \<^verbatim>\<open>EmplaceBack\<close> that returns has increased the size by exactly 1
  and returns a reference to the last element, the slot at index \<open>size - 1\<close>, which holds
  the value the constructor gives for the arguments in the state before the call. A
  \<^verbatim>\<open>PushBack\<close> that returns has increased the size by exactly 1 and stored the value of
  the object it was given in the last element, and returns nothing.
\<close>

theorem append_adds_last_element:
  "(EmplaceBack T this a w = (Inr r, w') \<and> owns_older_block w this \<longrightarrow>
       unat (Size (vecs w' this)) = unat (Size (vecs w this)) + 1
     \<and> r = Ref (last_slot w' this)
     \<and> (\<exists>val. fst (construct T a w) = Inr val
            \<and> slot_of w' (last_slot w' this) = Some (Obj val)))
   \<and> (PushBack_copy T this x u = (Inr q, u') \<and> owns_older_block u this \<longrightarrow>
       unat (Size (vecs u' this)) = unat (Size (vecs u this)) + 1
     \<and> q = Void
     \<and> (\<exists>val. value_of u x = Some val \<and> slot_of u' (last_slot u' this) = Some (Obj val)))
   \<and> (PushBack_move T this y z = (Inr p, z') \<and> owns_older_block z this \<longrightarrow>
       unat (Size (vecs z' this)) = unat (Size (vecs z this)) + 1
     \<and> p = Void
     \<and> (\<exists>val. value_of z y = Some val \<and> slot_of z' (last_slot z' this) = Some (Obj val)))"
proof (intro conjI impI)
  assume h: "EmplaceBack T this a w = (Inr r, w') \<and> owns_older_block w this"
  then have ok: "EmplaceBack T this a w = (Inr r, w')" and old: "owns_older_block w this"
    by simp_all
  from EmplaceBack_last_slot [OF ok old]
  show "unat (Size (vecs w' this)) = unat (Size (vecs w this)) + 1"
    and "r = Ref (last_slot w' this)"
    and "\<exists>val. fst (construct T a w) = Inr val
           \<and> slot_of w' (last_slot w' this) = Some (Obj val)"
    by blast+
next
  assume h: "PushBack_copy T this x u = (Inr q, u') \<and> owns_older_block u this"
  then obtain r' where ok: "EmplaceBack T this (lvalue x) u = (Inr r', u')"
    and q: "q = Void"
    by (auto simp: PushBack_copy_def ret_def elim!: bind_InrE)
  from h have old: "owns_older_block u this" by simp
  note e = EmplaceBack_last_slot [OF ok old]
  from e(1) show "unat (Size (vecs u' this)) = unat (Size (vecs u this)) + 1" .
  from q show "q = Void" .
  from e(3) show "\<exists>val. value_of u x = Some val
           \<and> slot_of u' (last_slot u' this) = Some (Obj val)"
    by (auto dest: construct_lvalue)
next
  assume h: "PushBack_move T this y z = (Inr p, z') \<and> owns_older_block z this"
  then obtain r' where ok: "EmplaceBack T this (rvalue y) z = (Inr r', z')"
    and p: "p = Void"
    by (auto simp: PushBack_move_def ret_def elim!: bind_InrE)
  from h have old: "owns_older_block z this" by simp
  note e = EmplaceBack_last_slot [OF ok old]
  from e(1) show "unat (Size (vecs z' this)) = unat (Size (vecs z this)) + 1" .
  from p show "p = Void" .
  from e(3) show "\<exists>val. value_of z y = Some val
           \<and> slot_of z' (last_slot z' this) = Some (Obj val)"
    by (auto dest: construct_rvalue)
qed

theorem append_adds_last_element_witness:
  "(unat (Size (vecs emplaced_seven 0)) = unat (Size (vecs empty_world 0)) + 1
     \<and> Ref (Addr 0 0) = Ref (last_slot emplaced_seven 0)
     \<and> (\<exists>val. fst (construct T_int (Values (Args (Some 7))) empty_world) = Inr val
              \<and> slot_of emplaced_seven (last_slot emplaced_seven 0) = Some (Obj val)))
   \<and> slot_of emplaced_seven (last_slot emplaced_seven 0) = Some (Obj 7)
   \<and> (unat (Size (vecs pushed_seven 0)) = unat (Size (vecs empty_world 0)) + 1
     \<and> (\<exists>val. value_of empty_world (Outside 7) = Some val
              \<and> slot_of pushed_seven (last_slot pushed_seven 0) = Some (Obj val)))
   \<and> slot_of pushed_seven (last_slot pushed_seven 0) = Some (Obj 7)
   \<and> (unat (Size (vecs pushed_first 0)) = unat (Size (vecs (full_two T_int) 0)) + 1
     \<and> (\<exists>val. value_of (full_two T_int) (Stored (Addr 1 0)) = Some val
              \<and> slot_of pushed_first (last_slot pushed_first 0) = Some (Obj val)))
   \<and> elements (full_two T_int) 0 = [Obj 1, Obj 2]
   \<and> elements pushed_first 0 = [Obj 1, Obj 2, Obj 1]"
proof -
  have e: "EmplaceBack T_int 0 (Values (Args (Some 7))) empty_world
             = (Inr (Ref (Addr 0 0)), emplaced_seven)"
    unfolding emplaced_seven_def by (rule prod_eqI) (code_simp, simp)
  have c: "PushBack_copy T_int 0 (Outside 7) empty_world = (Inr Void, pushed_seven)"
    unfolding pushed_seven_def by (rule prod_eqI) (code_simp, simp)
  have m: "PushBack_move T_int 0 (Stored (Addr 1 0)) (full_two T_int) = (Inr Void, pushed_first)"
    unfolding pushed_first_def by (rule prod_eqI) (code_simp, simp)
  have old: "owns_older_block empty_world 0"
    by code_simp
  have old2: "owns_older_block (full_two T_int) 0"
    by code_simp
  note inst = append_adds_last_element
    [of T_int 0 "Values (Args (Some 7))" empty_world "Ref (Addr 0 0)" emplaced_seven
        "Outside 7" empty_world Void pushed_seven
        "Stored (Addr 1 0)" "full_two T_int" Void pushed_first]
  have v1: "slot_of emplaced_seven (last_slot emplaced_seven 0) = Some (Obj 7)" by code_simp
  have v2: "slot_of pushed_seven (last_slot pushed_seven 0) = Some (Obj 7)" by code_simp
  have e1: "elements (full_two T_int) 0 = [Obj 1, Obj 2]" by code_simp
  have e2: "elements pushed_first 0 = [Obj 1, Obj 2, Obj 1]" by code_simp
  from inst e c m old old2 v1 v2 e1 e2 show ?thesis by blast
qed

text \<open>
  \<^verbatim>\<open>PushBack\<close> is declared \<^verbatim>\<open>void\<close>: appending 7 to a default-constructed vector
  returns nothing, not a reference to the element stored.
\<close>

theorem PushBack_returns_void:
  "fst (PushBack_copy T_int 0 (Outside 7) empty_world) = Inr Void
   \<and> fst (PushBack_copy T_int 0 (Outside 7) empty_world) \<noteq> Inr (Ref (last_slot pushed_seven 0))
   \<and> fst (PushBack_move T_int 0 (Outside 7) empty_world) = Inr Void
   \<and> fst (PushBack_move T_int 0 (Outside 7) empty_world) \<noteq> Inr (Ref (last_slot pushed_moved_seven 0))"
proof -
  have c: "fst (PushBack_copy T_int 0 (Outside 7) empty_world) = Inr Void" by code_simp
  have m: "fst (PushBack_move T_int 0 (Outside 7) empty_world) = Inr Void" by code_simp
  show ?thesis by (simp add: c m)
qed



lemma lift_Inr: "lift r w = (Inr x, w') \<longleftrightarrow> r = Inr x \<and> w' = w"
  by (auto simp: lift_def)


section \<open>Relocation on growth\<close>




section \<open>Exceptions during growth\<close>






















































section \<open>Insertion into spare capacity\<close>

lemma move_backward_Inr:
  assumes "move_backward T first lastp d_last w = (Inr u, w')"
  obtains n d_first where "range_length first lastp = Inr n" and "ptr_sub d_last n = Inr d_first"
    and "trace w' = trace w
           @ map (\<lambda>j. MoveAssign (ptr_add first j) (ptr_add d_first j)) (rev [0..<n])"
proof -
  from assms obtain n d_first where
    n: "range_length first lastp = Inr n" and d: "ptr_sub d_last n = Inr d_first" and
    l: "move_backward_loop T first d_first n w = (Inr u, w')"
    unfolding move_backward_def by (auto simp: lift_Inr elim!: bind_InrE)
  from emitsD [OF emits_move_backward_loop l] n d that show ?thesis by blast
qed

lemma assign_temp_Inr:
  assumes "assign_temp T d index a w = (Inr u, w')"
  obtains p val where "RawMemory_index d index = Inr p" and "fst (construct T a w) = Inr val"
    and "slot_of w' p = Some (Obj val)"
    and "trace w' = trace w @ [TempConstruct, MoveAssignTemp p, TempDestroy]"
    and "vecs w' = vecs w"
proof -
  let ?w0 = "w\<lparr>trace := trace w @ [TempConstruct]\<rparr>"
  have "bind (construct T a) (\<lambda>v.
          bind (on_exception
             (bind (lift (RawMemory_index d index)) (\<lambda>p.
              bind (log (MoveAssignTemp p)) (\<lambda>_.
              bind (load p) (\<lambda>_.
              if move_assign_throws T v then raise Thrown else store p (Obj v)))))
             (log TempDestroy)) (\<lambda>_. log TempDestroy)) ?w0 = (Inr u, w')"
    using assms unfolding assign_temp_def by (simp add: bind_log)
  then obtain val wc where mk: "construct T a ?w0 = (Inr val, wc)" and
    run: "bind (on_exception
             (bind (lift (RawMemory_index d index)) (\<lambda>p.
              bind (log (MoveAssignTemp p)) (\<lambda>_.
              bind (load p) (\<lambda>_.
              if move_assign_throws T val then raise Thrown else store p (Obj val)))))
             (log TempDestroy)) (\<lambda>_. log TempDestroy) wc = (Inr u, w')"
    by (rule bind_InrE)
  from mk have val: "fst (construct T a w) = Inr val"
    using construct_trace [of T a "trace w @ [TempConstruct]" w] by simp
  note c = construct_Inr [OF mk]
  from run obtain w3 where
    body: "bind (lift (RawMemory_index d index)) (\<lambda>p.
              bind (log (MoveAssignTemp p)) (\<lambda>_.
              bind (load p) (\<lambda>_.
              if move_assign_throws T val then raise Thrown else store p (Obj val)))) wc
            = (Inr (), w3)" and
    fin: "w' = w3\<lparr>trace := trace w3 @ [TempDestroy]\<rparr>"
    by (auto simp: on_exception_Inr log_def elim!: bind_InrE)
  from body obtain p where p: "RawMemory_index d index = Inr p" and
    st: "bind (load p) (\<lambda>_.
           if move_assign_throws T val then raise Thrown else store p (Obj val))
           (wc\<lparr>trace := trace wc @ [MoveAssignTemp p]\<rparr>) = (Inr (), w3)"
    by (cases "RawMemory_index d index") (auto simp: bind_lift bind_log)
  let ?w1 = "wc\<lparr>trace := trace wc @ [MoveAssignTemp p]\<rparr>"
  from st have s3: "store p (Obj val) ?w1 = (Inr (), w3)"
    by (auto simp: raise_def dest: load_Inr elim!: bind_InrE split: if_splits)
  note s = store_Inr [OF s3]
  have "slot_of w' p = Some (Obj val)"
    using s(1) fin by (simp add: slot_of_trace_update)
  moreover have "trace w' = trace w @ [TempConstruct, MoveAssignTemp p, TempDestroy]"
    using s(2) fin c(1) by simp
  moreover have "vecs w' = vecs w"
    using s(3) fin c(2) by simp
  ultimately show ?thesis using p val that by blast
qed

lemma touches_move_backward_loop: "touches (move_backward_loop T first d_first n) UNIV"
  by (induction n) (auto intro!: touches_intros touches_move_assign)

lemma touches_move_backward: "touches (move_backward T first lastp d_last) UNIV"
  unfolding move_backward_def by (intro touches_intros touches_move_backward_loop)

lemma unat_of_nat_small: "j < unat (n :: size_t) \<Longrightarrow> unat (of_nat j :: size_t) = j"
  using unsigned_less [of n, where ?'a = nat] by (simp add: unat_of_nat)

lemma shift_right_Inr:
  assumes ok: "shift_right T v k w = (Inr u, ws)"
    and before: "unat k < unat (vec_size v)"
  shows "trace ws = trace w
           @ [MoveConstruct (ptr_add (Vector_begin v) (unat (vec_size v) - 1))
                (ptr_add (Vector_begin v) (unat (vec_size v)))]
           @ shift_events (ptr_add (Vector_begin v) (unat k)) (unat (vec_size v) - 1 - unat k)"
    and "vecs ws = vecs w"
proof -
  let ?n = "vec_size v"
  let ?begin = "Vector_begin v"
  let ?pos = "ptr_add ?begin (unat k)"
  from before have nz: "?n \<noteq> 0" by auto
  then have pred: "unat (?n - 1) = unat ?n - 1" by (rule unat_minus_one)
  from ok obtain dst src en pe w1 where
    dst: "RawMemory_plus (vec_data v) ?n = Inr dst" and
    src: "RawMemory_index (vec_data v) (?n - 1) = Inr src" and
    mc: "move_construct T src dst w = (Inr (), w1)" and
    en: "Vector_end v = Inr en" and
    pe: "ptr_sub en 1 = Inr pe" and
    mb: "move_backward T ?pos pe en w1 = (Inr (), ws)"
    unfolding shift_right_def by (auto simp: lift_Inr elim!: bind_InrE)
  from en nz obtain b i where buf: "raw_buffer (vec_data v) = Addr b i"
    and ena: "en = Addr b (i + unat ?n)"
    by (cases "raw_buffer (vec_data v)")
       (auto simp: Vector_end_def RawMemory_plus_def split: if_splits)
  have beg: "?begin = Addr b i" using buf by (simp add: Vector_begin_def GetAddress_def)
  from dst buf have dsta: "dst = ptr_add ?begin (unat ?n)"
    using beg by (auto simp: RawMemory_plus_def split: if_splits)
  from src buf pred have srca: "src = ptr_add ?begin (unat ?n - 1)"
    using beg by (auto simp: RawMemory_index_def split: if_splits)
  from pe ena have pea: "pe = Addr b (i + unat ?n - 1)"
    by (auto simp: ptr_sub_def split: if_splits)
  have t1: "trace w1 = trace w @ [MoveConstruct src dst]"
    using emits_move_construct mc by (rule emitsD)
  have sb1: "same_but (cells src (Suc 0) \<union> cells dst (Suc 0)) w w1"
    by (rule touchesD [OF touches_move_construct mc]) auto
  from mb obtain len d_first where
    len: "range_length ?pos pe = Inr len" and
    df: "ptr_sub en len = Inr d_first" and
    t2: "trace ws = trace w1
           @ map (\<lambda>x. MoveAssign (ptr_add ?pos x) (ptr_add d_first x)) (rev [0..<len])"
    by (rule move_backward_Inr)
  from len pea beg before have lena: "len = unat ?n - 1 - unat k"
    by (auto simp: range_length_def split: if_splits)
  from df ena lena before have dfa: "d_first = Addr b (i + unat k + 1)"
    by (auto simp: ptr_sub_def split: if_splits)
  have shift: "map (\<lambda>x. MoveAssign (ptr_add ?pos x) (ptr_add d_first x)) (rev [0..<len])
                 = shift_events ?pos (unat ?n - 1 - unat k)"
    using beg dfa lena by (simp add: shift_events_def)
  from t2 t1 shift srca dsta show "trace ws = trace w
           @ [MoveConstruct (ptr_add ?begin (unat ?n - 1)) (ptr_add ?begin (unat ?n))]
           @ shift_events ?pos (unat ?n - 1 - unat k)"
    by simp
  show "vecs ws = vecs w"
    using touchesD [OF touches_move_backward mb] sb1 by (simp add: same_but_def)
qed

lemma store_slot:
  assumes "store p s w = (Inr u, w')"
  shows "slot_of w' q = (if q = p then Some s else slot_of w q)"
  using assms
  by (cases p; cases q)
     (auto simp: store_def slot_of_def nth_list_update split: option.splits if_splits)

lemma load_slot: "load p w = (Inr x, w') \<Longrightarrow> slot_of w p = Some (Obj x)"
  by (auto simp: load_def split: option.splits slot.splits)

lemma moved_slots:
  assumes s1: "store dst (Obj x) w0 = (Inr u1, w2)"
    and s2: "store src (Obj y) w2 = (Inr u, w')"
  shows "slot_of w' q = (if q = src then Some (Obj y)
                         else if q = dst then Some (Obj x) else slot_of w0 q)"
  using store_slot [OF s2, of q] store_slot [OF s1, of q] by simp

lemma move_assign_slots:
  assumes "move_assign T src dst w = (Inr u, w')"
  shows "\<exists>x. slot_of w src = Some (Obj x) \<and>
           (\<forall>q. slot_of w' q = (if q = src then Some (Obj (moved_from T x))
                               else if q = dst then Some (Obj x) else slot_of w q))"
proof -
  let ?w0 = "w\<lparr>trace := trace w @ [MoveAssign src dst]\<rparr>"
  have "bind (load src) (\<lambda>v. bind (load dst) (\<lambda>_.
          if move_assign_throws T v then raise Thrown
          else bind (store dst (Obj v)) (\<lambda>_. store src (Obj (moved_from T v))))) ?w0
        = (Inr u, w')"
    using assms unfolding move_assign_def by (simp add: bind_log)
  then obtain x wa where l: "load src ?w0 = (Inr x, wa)" and
    r1: "bind (load dst) (\<lambda>_.
          if move_assign_throws T x then raise Thrown
          else bind (store dst (Obj x)) (\<lambda>_. store src (Obj (moved_from T x)))) wa
        = (Inr u, w')"
    by (rule bind_InrE)
  from load_Inr [OF l] have wa: "wa = ?w0" .
  from r1 obtain y wb where l2: "load dst wa = (Inr y, wb)" and
    r2: "(if move_assign_throws T x then raise Thrown
          else bind (store dst (Obj x)) (\<lambda>_. store src (Obj (moved_from T x)))) wb
        = (Inr u, w')"
    by (rule bind_InrE)
  from load_Inr [OF l2] wa have wb: "wb = ?w0" by simp
  from r2 have r3: "bind (store dst (Obj x)) (\<lambda>_. store src (Obj (moved_from T x))) ?w0
        = (Inr u, w')"
    unfolding wb by (auto simp: raise_def split: if_splits)
  then obtain w2 where
    s1: "store dst (Obj x) ?w0 = (Inr (), w2)" and
    s2: "store src (Obj (moved_from T x)) w2 = (Inr u, w')"
    by (rule bind_InrE) simp
  from l have "slot_of w src = Some (Obj x)"
    by (auto dest: load_slot simp: slot_of_trace_update)
  moreover have "slot_of w' q = (if q = src then Some (Obj (moved_from T x))
                               else if q = dst then Some (Obj x) else slot_of w q)" for q
    using moved_slots [OF s1 s2, of q] by (simp add: slot_of_trace_update)
  ultimately show ?thesis by blast
qed

lemma move_construct_slots:
  assumes "move_construct T src dst w = (Inr u, w')"
  shows "\<exists>x. slot_of w src = Some (Obj x) \<and>
           (\<forall>q. slot_of w' q = (if q = src then Some (Obj (moved_from T x))
                               else if q = dst then Some (Obj x) else slot_of w q))"
proof -
  let ?w0 = "w\<lparr>trace := trace w @ [MoveConstruct src dst]\<rparr>"
  have "bind (load src) (\<lambda>v.
          if move_throws T v
          then raise (if nothrow_move_constructible T then Terminated else Thrown)
          else bind (store dst (Obj v)) (\<lambda>_. store src (Obj (moved_from T v)))) ?w0
        = (Inr u, w')"
    using assms unfolding move_construct_def by (simp add: bind_log)
  then obtain x wa where l: "load src ?w0 = (Inr x, wa)" and
    r2: "(if move_throws T x
          then raise (if nothrow_move_constructible T then Terminated else Thrown)
          else bind (store dst (Obj x)) (\<lambda>_. store src (Obj (moved_from T x)))) wa
        = (Inr u, w')"
    by (rule bind_InrE)
  from load_Inr [OF l] have wa: "wa = ?w0" .
  from r2 have r3: "bind (store dst (Obj x)) (\<lambda>_. store src (Obj (moved_from T x))) ?w0
        = (Inr u, w')"
    unfolding wa by (auto simp: raise_def split: if_splits)
  then obtain w2 where
    s1: "store dst (Obj x) ?w0 = (Inr (), w2)" and
    s2: "store src (Obj (moved_from T x)) w2 = (Inr u, w')"
    by (rule bind_InrE) simp
  from l have "slot_of w src = Some (Obj x)"
    by (auto dest: load_slot simp: slot_of_trace_update)
  moreover have "slot_of w' q = (if q = src then Some (Obj (moved_from T x))
                               else if q = dst then Some (Obj x) else slot_of w q)" for q
    using moved_slots [OF s1 s2, of q] by (simp add: slot_of_trace_update)
  ultimately show ?thesis by blast
qed

lemma move_backward_loop_slots:
  assumes "move_backward_loop T (Addr b s) (Addr b (Suc s)) n w = (Inr u, w')"
  shows "slot_of w' (Addr c m) =
     (if c = b \<and> s < m \<and> m \<le> s + n then slot_of w (Addr b (m - 1))
      else if c = b \<and> m = s \<and> 0 < n
           then map_option (map_slot (moved_from T)) (slot_of w (Addr b s))
      else slot_of w (Addr c m))"
  using assms
proof (induction n arbitrary: w u)
  case 0
  then show ?case by (auto simp: ret_def)
next
  case (Suc n)
  from Suc.prems obtain w1 where
    ma: "move_assign T (Addr b (s + n)) (Addr b (Suc (s + n))) w = (Inr (), w1)" and
    rest: "move_backward_loop T (Addr b s) (Addr b (Suc s)) n w1 = (Inr u, w')"
    by (auto elim!: bind_InrE)
  from move_assign_slots [OF ma] obtain x where
    x: "slot_of w (Addr b (s + n)) = Some (Obj x)" and
    w1: "\<And>q. slot_of w1 q = (if q = Addr b (s + n) then Some (Obj (moved_from T x))
                          else if q = Addr b (Suc (s + n)) then Some (Obj x) else slot_of w q)"
    by blast
  note ih = Suc.IH [OF rest]
  show ?case
    unfolding ih using x by (auto simp: w1)
qed


lemma shift_right_slots:
  assumes ok: "shift_right T v k w = (Inr u, ws)"
    and before: "unat k < unat (vec_size v)"
    and buf: "raw_buffer (vec_data v) = Addr b i"
  shows "slot_of ws (Addr c m) =
     (if c = b \<and> i + unat k < m \<and> m \<le> i + unat (vec_size v)
      then slot_of w (Addr b (m - 1))
      else if c = b \<and> m = i + unat k
           then map_option (map_slot (moved_from T)) (slot_of w (Addr b (i + unat k)))
      else slot_of w (Addr c m))"
proof -
  let ?n = "vec_size v"
  let ?pos = "ptr_add (Vector_begin v) (unat k)"
  from before have nz: "?n \<noteq> 0" by auto
  then have pred: "unat (?n - 1) = unat ?n - 1" by (rule unat_minus_one)
  from ok obtain dst src en pe w1 where
    dst: "RawMemory_plus (vec_data v) ?n = Inr dst" and
    src: "RawMemory_index (vec_data v) (?n - 1) = Inr src" and
    mc: "move_construct T src dst w = (Inr (), w1)" and
    en: "Vector_end v = Inr en" and
    pe: "ptr_sub en 1 = Inr pe" and
    mb: "move_backward T ?pos pe en w1 = (Inr (), ws)"
    unfolding shift_right_def by (auto simp: lift_Inr elim!: bind_InrE)
  have beg: "Vector_begin v = Addr b i" using buf by (simp add: Vector_begin_def GetAddress_def)
  from en nz buf have ena: "en = Addr b (i + unat ?n)"
    by (auto simp: Vector_end_def RawMemory_plus_def split: if_splits)
  from dst buf have dsta: "dst = Addr b (i + unat ?n)"
    by (auto simp: RawMemory_plus_def split: if_splits)
  from src buf pred have srca: "src = Addr b (i + unat ?n - 1)"
    using before by (auto simp: RawMemory_index_def split: if_splits)
  from pe ena have pea: "pe = Addr b (i + unat ?n - 1)"
    by (auto simp: ptr_sub_def split: if_splits)
  from mb obtain len d_first where
    len: "range_length ?pos pe = Inr len" and
    df: "ptr_sub en len = Inr d_first" and
    loop: "move_backward_loop T ?pos d_first len w1 = (Inr (), ws)"
    unfolding move_backward_def by (auto simp: lift_Inr elim!: bind_InrE)
  from len pea beg before have lena: "len = unat ?n - 1 - unat k"
    by (auto simp: range_length_def split: if_splits)
  from df ena lena before have dfa: "d_first = Addr b (Suc (i + unat k))"
    by (auto simp: ptr_sub_def split: if_splits)
  from loop beg dfa have
    loop': "move_backward_loop T (Addr b (i + unat k)) (Addr b (Suc (i + unat k))) len w1
              = (Inr (), ws)"
    by simp
  note l = move_backward_loop_slots [OF loop', of c m]
  from move_construct_slots [OF mc] obtain x where
    x: "slot_of w src = Some (Obj x)" and
    w1: "\<And>q. slot_of w1 q = (if q = src then Some (Obj (moved_from T x))
                          else if q = dst then Some (Obj x) else slot_of w q)"
    by blast
  let ?K = "unat k" and ?N = "unat (vec_size v)"
  have sd: "src = Addr b (i + ?N - 1)" "dst = Addr b (i + ?N)"
    using srca dsta by simp_all
  have w1b: "slot_of w1 (Addr c' m') =
      (if c' = b \<and> m' = i + ?N - 1 then Some (Obj (moved_from T x))
       else if c' = b \<and> m' = i + ?N then Some (Obj x) else slot_of w (Addr c' m'))" for c' m'
    unfolding w1 [of "Addr c' m'"] sd by simp
  have xs: "slot_of w (Addr b (i + ?N - 1)) = Some (Obj x)" using x sd by simp
  have kn: "?K < ?N" using before .
  consider (other) "c \<noteq> b" | (low) "c = b" "m < i + ?K" | (high) "c = b" "i + ?N < m"
    | (at) "c = b" "m = i + ?K" | (mid) "c = b" "i + ?K < m" "m < i + ?N"
    | (top) "c = b" "m = i + ?N"
    by linarith
  then show ?thesis
  proof cases
    case other
    then show ?thesis unfolding l by (simp add: w1b)
  next
    case low
    then have "m \<noteq> i + ?N - 1" "m \<noteq> i + ?N" "\<not> i + ?K < m" "m \<noteq> i + ?K"
      using kn by simp_all
    then show ?thesis unfolding l using low by (simp add: w1b)
  next
    case high
    then have "m \<noteq> i + ?N - 1" "m \<noteq> i + ?N" "\<not> m \<le> i + ?K + len"
      "\<not> m \<le> i + ?N" "m \<noteq> i + ?K"
      using kn lena by simp_all
    then show ?thesis unfolding l using high by (simp add: w1b)
  next
    case at
    show ?thesis
    proof (cases "Suc ?K = ?N")
      case True
      then have "len = 0" "i + ?N - 1 = i + ?K" using lena by simp_all
      then show ?thesis unfolding l using at xs by (simp add: w1b)
    next
      case False
      then have "0 < len" "i + ?K \<noteq> i + ?N - 1" "i + ?K \<noteq> i + ?N"
        using lena kn by simp_all
      then show ?thesis unfolding l using at by (simp add: w1b)
    qed
  next
    case mid
    then have "m \<le> i + ?K + len" "m - 1 \<noteq> i + ?N - 1" "m - 1 \<noteq> i + ?N"
      using lena kn by simp_all
    then show ?thesis unfolding l using mid by (simp add: w1b)
  next
    case top
    then have "\<not> m \<le> i + ?K + len" "m \<noteq> i + ?K" "i + ?K < m" "m \<noteq> i + ?N - 1"
      using lena kn by simp_all
    then show ?thesis unfolding l using top xs by (simp add: w1b)
  qed
qed

lemma Emplace_inplace:
  assumes ok: "Emplace T this (ptr_add (Vector_begin (vecs w this)) j) a w = (Inr r, w')"
    and before: "j < unat (vec_size (vecs w this))"
    and room: "vec_size (vecs w this) < Capacity (vecs w this)"
  shows "trace w' = trace w
           @ [MoveConstruct (ptr_add (Vector_begin (vecs w this)) (unat (vec_size (vecs w this)) - 1))
                (ptr_add (Vector_begin (vecs w this)) (unat (vec_size (vecs w this))))]
           @ shift_events (ptr_add (Vector_begin (vecs w this)) j)
               (unat (vec_size (vecs w this)) - 1 - j)
           @ [TempConstruct, MoveAssignTemp (ptr_add (Vector_begin (vecs w this)) j), TempDestroy]"
    and "\<exists>ws val. shift_right T (vecs w this) (of_nat j) w = (Inr (), ws)
           \<and> (\<forall>m. slot_of ws (ptr_add (Vector_begin (vecs w this)) m) =
                 (if j < m \<and> m \<le> unat (vec_size (vecs w this))
                  then slot_of w (ptr_add (Vector_begin (vecs w this)) (m - 1))
                  else if m = j
                  then map_option (map_slot (moved_from T))
                         (slot_of w (ptr_add (Vector_begin (vecs w this)) j))
                  else slot_of w (ptr_add (Vector_begin (vecs w this)) m)))
           \<and> fst (construct T a ws) = Inr val
           \<and> slot_of w' (ptr_add (Vector_begin (vecs w this)) j) = Some (Obj val)"
    and "r = Ref (ptr_add (Vector_begin (vecs w this)) j)"
    and "vecs w' = (vecs w)(this := (vecs w this)\<lparr>vec_size := vec_size (vecs w this) + 1\<rparr>)"
proof -
  let ?v = "vecs w this"
  let ?n = "vec_size ?v"
  let ?begin = "Vector_begin ?v"
  let ?pos = "ptr_add ?begin j"
  from before have nz: "?n \<noteq> 0" by auto
  obtain en where en: "Vector_cend ?v = Inr en"
    using ok by (cases "Vector_cend ?v") (auto simp: Emplace_def bind_simps)
  with nz obtain b i where buf: "raw_buffer (vec_data ?v) = Addr b i"
    and ena: "en = Addr b (i + unat ?n)"
    by (cases "raw_buffer (vec_data ?v)")
       (auto simp: Vector_cend_def Vector_end_def RawMemory_plus_def split: if_splits)
  have beg: "?begin = Addr b i" using buf by (simp add: Vector_begin_def GetAddress_def)
  have pos: "?pos = Addr b (i + j)" using beg by simp
  have ne: "?pos \<noteq> en" using pos ena before by simp
  let ?k = "of_nat j :: size_t"
  have uk: "unat ?k = j" using before by (rule unat_of_nat_small)
  have dist: "distance (Vector_cbegin ?v) ?pos = Inr ?k"
    using pos beg by (simp add: distance_def Vector_cbegin_def)
  let ?step = "bind (shift_right T ?v ?k) (\<lambda>_. assign_temp T (vec_data ?v) ?k a)"
  let ?tail = "\<lambda>_ :: unit. bind (set_size this (?n + 1)) (\<lambda>_.
           bind (get_vec this) (\<lambda>v'.
           ret (Ref (ptr_add (Vector_begin v') (unat ?k)))))"
  have "bind ?step ?tail w = (Inr r, w')"
    using ok en ne dist room unfolding Emplace_def by (simp add: bind_get_vec bind_lift)
  then obtain w4 where step: "?step w = (Inr (), w4)" and rest: "?tail () w4 = (Inr r, w')"
    by (rule bind_InrE) simp
  from step obtain w2 where
    sh: "shift_right T ?v ?k w = (Inr (), w2)" and
    at: "assign_temp T (vec_data ?v) ?k a w2 = (Inr (), w4)"
    by (rule bind_InrE) simp
  from before uk have kn: "unat ?k < unat ?n" by simp
  note s = shift_right_Inr [OF sh kn]
  have sl2: "slot_of w2 (ptr_add ?begin m) =
                 (if j < m \<and> m \<le> unat ?n then slot_of w (ptr_add ?begin (m - 1))
                  else if m = j
                  then map_option (map_slot (moved_from T)) (slot_of w (ptr_add ?begin j))
                  else slot_of w (ptr_add ?begin m))" for m
    using shift_right_slots [OF sh kn buf, of b "i + m"] uk beg by auto
  from at obtain p val where
    p: "RawMemory_index (vec_data ?v) ?k = Inr p" and
    mk: "fst (construct T a w2) = Inr val" and
    sl: "slot_of w4 p = Some (Obj val)" and
    t4: "trace w4 = trace w2 @ [TempConstruct, MoveAssignTemp p, TempDestroy]" and
    v4: "vecs w4 = vecs w2"
    by (rule assign_temp_Inr)
  from p buf uk have pa: "p = ?pos"
    using beg by (auto simp: RawMemory_index_def split: if_splits)
  note v2 = s(2)
  from rest v4 v2 have r: "r = Ref (ptr_add (Vector_begin (vecs w4 this)) (unat ?k))"
    and w': "w' = w4\<lparr>vecs := (vecs w4)(this := (vecs w4 this)\<lparr>vec_size := ?n + 1\<rparr>)\<rparr>"
    by (auto simp: bind_simps ret_def Vector_begin_def GetAddress_def)
  from r v4 v2 uk show "r = Ref ?pos"
    by (simp add: Vector_begin_def GetAddress_def)
  from w' v4 v2 show "vecs w' = (vecs w)(this := ?v\<lparr>vec_size := ?n + 1\<rparr>)"
    by simp
  from w' t4 s(1) uk pa show "trace w' = trace w
           @ [MoveConstruct (ptr_add ?begin (unat ?n - 1)) (ptr_add ?begin (unat ?n))]
           @ shift_events ?pos (unat ?n - 1 - j)
           @ [TempConstruct, MoveAssignTemp ?pos, TempDestroy]"
    by simp
  have "slot_of w' ?pos = Some (Obj val)"
    using sl pa w' by (cases ?pos) (simp_all add: slot_of_def)
  with sh mk sl2 show "\<exists>ws val. shift_right T ?v ?k w = (Inr (), ws)
           \<and> (\<forall>m. slot_of ws (ptr_add ?begin m) =
                 (if j < m \<and> m \<le> unat ?n then slot_of w (ptr_add ?begin (m - 1))
                  else if m = j
                  then map_option (map_slot (moved_from T)) (slot_of w (ptr_add ?begin j))
                  else slot_of w (ptr_add ?begin m)))
           \<and> fst (construct T a ws) = Inr val \<and> slot_of w' ?pos = Some (Obj val)"
    by blast
qed

lemma Emplace_inplace_values:
  assumes ok: "Emplace T this (ptr_add (Vector_begin (vecs w this)) j) (Values args) w = (Inr r, w')"
    and before: "j < unat (vec_size (vecs w this))"
    and room: "vec_size (vecs w this) < Capacity (vecs w this)"
  shows "\<exists>val. make T args = Inr val
           \<and> slot_of w' (ptr_add (Vector_begin (vecs w this)) j) = Some (Obj val)"
  using Emplace_inplace(2) [OF ok before room] by (auto simp: construct_values lift_def)




section \<open>The invariant after an exception\<close>

text \<open>
  C7. The invariant holds for a vector of two elements in a buffer of capacity four. An
  \<^verbatim>\<open>Insert\<close> at the front whose value cannot be copied throws after the last element was
  move-constructed into the slot at index \<open>size\<close> and the others were shifted: the size
  is still 2, the slot at index 2 holds an object that no destructor will reach, and the
  element at index 0 is a moved-from object. The invariant no longer holds.
\<close>

theorem insert_throw_breaks_invariant:
  "live_prefix (two_in_four T_legacy) 0
   \<and> elements (two_in_four T_legacy) 0 = [Obj 1, Obj 2]
   \<and> fst (Insert_copy T_legacy 0 (Addr 0 0) (Outside 13) (two_in_four T_legacy)) = Inl Thrown
   \<and> vecs failed_front 0 = two_of_four
   \<and> heap failed_front 0 = Some [Obj 0, Obj 1, Obj 2, Raw]
   \<and> \<not> live_prefix failed_front 0"
  by code_simp

section \<open>Insertion followed by erasure\<close>

text \<open>
  C8. \<^verbatim>\<open>Erase\<close> destroys the element at the position and then move-assigns the next
  element to the destroyed slot. When the element owns a resource, as a non-empty
  \<^verbatim>\<open>std::vector<int>\<close> does, its destructor has released the resource and the
  assignment releases it a second time: \<^verbatim>\<open>Erase\<close> after \<^verbatim>\<open>Insert\<close> at the front is
  undefined and does not restore the sequence. When the elements own nothing, as \<^verbatim>\<open>int\<close>
  values and strings short enough to be kept inside the object do, the destructor call
  changes nothing and the sequence is restored; the slot the last element has left still
  holds a moved-from object.
\<close>

theorem insert_erase_undefined:
  "elements (two_in_four T_vector) 0 = [Obj 1, Obj 2]
   \<and> fst (Insert_copy T_vector 0 (Addr 0 0) (Outside 9) (two_in_four T_vector))
       = Inr (Ref (Addr 0 0))
   \<and> elements (inserted_front T_vector) 0 = [Obj 9, Obj 1, Obj 2]
   \<and> owns_resource T_vector 9
   \<and> fst (Erase T_vector 0 (Addr 0 0) (inserted_front T_vector)) = Inl Undefined
   \<and> trace (erased_front T_vector) = trace (inserted_front T_vector)
        @ [Destroy (Addr 0 0), MoveAssign (Addr 0 1) (Addr 0 0)]
   \<and> slot_of (erased_front T_vector) (Addr 0 0) = Some Raw
   \<and> fst (Erase T_string 0 (Addr 0 0) (inserted_front T_string)) = Inr (Ref (Addr 0 0))
   \<and> elements (erased_front T_string) 0 = elements (two_in_four T_string) 0
   \<and> slot_of (erased_front T_string) (Addr 0 2) = Some (Obj 0)
   \<and> fst (Erase T_int 0 (Addr 0 0) (inserted_front T_int)) = Inr (Ref (Addr 0 0))
   \<and> elements (erased_front T_int) 0 = elements (two_in_four T_int) 0"
  by code_simp

end
